theory Spec2Isabelle
  imports Main "HOL-Library.Word" "HOL-Library.List_Lexorder"
begin

unbundle bit_operations_syntax

section \<open>SecureChat: package crypto\<close>

text \<open>
  Go's \<^verbatim>\<open>[]byte\<close> is a list of 8-bit words, \<^verbatim>\<open>uint32\<close> a 32-bit word whose
  \<open>+\<close> wraps around as Go's does.
\<close>

type_synonym byte = "8 word"
type_synonym bytes = "byte list"
type_synonym uint32 = "32 word"

subsection \<open>SecureCompare (package crypto)\<close>

text \<open>
  \<^verbatim>\<open>
  func SecureCompare(a, b []byte) bool {
      if len(a) != len(b) { return false }
      var result byte
      for i := 0; i < len(a); i++ { result |= a[i] ^ b[i] }
      return result == 0
  }
  \<close>
  The loop is the recursion \<open>SecureCompare_loop\<close> on the index \<open>i\<close>, carrying
  \<open>result\<close>. The loop is entered only when both slices have the length \<open>len(a)\<close>,
  so both reads are in range.
\<close>

function SecureCompare_loop :: "bytes \<Rightarrow> bytes \<Rightarrow> nat \<Rightarrow> byte \<Rightarrow> byte" where
  "SecureCompare_loop a b i result =
     (if i < length a
      then SecureCompare_loop a b (i + 1) (result OR ((a ! i) XOR (b ! i)))
      else result)"
  by pat_completeness auto
termination
  by (relation "measure (\<lambda>(a, b, i, result). length a - i)") auto

definition SecureCompare :: "bytes \<Rightarrow> bytes \<Rightarrow> bool" where
  "SecureCompare a b =
     (if length a \<noteq> length b then False
      else SecureCompare_loop a b 0 0 = 0)"

subsection \<open>The libraries the package calls\<close>

text \<open>
  The package computes nothing cryptographic itself: it calls \<^verbatim>\<open>crypto/sha256\<close>,
  \<^verbatim>\<open>x/crypto/hkdf\<close>, \<^verbatim>\<open>x/crypto/curve25519\<close> and
  \<^verbatim>\<open>x/crypto/chacha20poly1305\<close>. These are not code of the repository, so every
  function of the model takes them as a parameter, a record of functions:
  \<^item> \<open>sha256_Sum m\<close>: the SHA-256 digest of \<open>m\<close> (\<^verbatim>\<open>sha256.Sum256(m)\<close>, or
    \<^verbatim>\<open>h.Write\<close> of the pieces of \<open>m\<close> followed by \<^verbatim>\<open>h.Sum(nil)\<close>);
  \<^item> \<open>hkdf_Read secret salt info n\<close>: the first \<open>n\<close> bytes read from
    \<^verbatim>\<open>hkdf.New(sha256.New, secret, salt, info)\<close>, \<open>None\<close> when the reader fails;
  \<^item> \<open>X25519 scalar point\<close>: \<^verbatim>\<open>curve25519.X25519\<close>, \<open>None\<close> for its error;
  \<^item> \<open>aead_Seal key nonce plaintext ad\<close> and \<open>aead_Open key nonce ciphertext ad\<close>:
    \<^verbatim>\<open>Seal\<close> and \<^verbatim>\<open>Open\<close> of the ChaCha20-Poly1305 AEAD made by
    \<^verbatim>\<open>chacha20poly1305.New(key)\<close>; \<open>None\<close> is \<^verbatim>\<open>Open\<close>'s authentication error.
\<close>

record crypto_lib =
  sha256_Sum :: "bytes \<Rightarrow> bytes"
  hkdf_Read :: "bytes \<Rightarrow> bytes \<Rightarrow> bytes \<Rightarrow> nat \<Rightarrow> bytes option"
  X25519 :: "bytes \<Rightarrow> bytes \<Rightarrow> bytes option"
  aead_Seal :: "bytes \<Rightarrow> bytes \<Rightarrow> bytes \<Rightarrow> bytes \<Rightarrow> bytes"
  aead_Open :: "bytes \<Rightarrow> bytes \<Rightarrow> bytes \<Rightarrow> bytes \<Rightarrow> bytes option"

text \<open>\<^verbatim>\<open>chacha20poly1305.KeySize\<close>, \<^verbatim>\<open>NonceSize\<close> and \<^verbatim>\<open>curve25519.Basepoint\<close>.\<close>

definition KeySize :: nat where
  "KeySize = 32"

definition NonceSize :: nat where
  "NonceSize = 12"

definition Basepoint :: bytes where
  "Basepoint = 9 # replicate 31 0"

text \<open>
  \<^verbatim>\<open>crypto/rand\<close> is the one source of nondeterminism. The model passes the bytes
  the generator will deliver as an explicit tape: \<open>rand_Read n\<close> is \<^verbatim>\<open>rand.Read\<close> on a
  buffer of \<open>n\<close> bytes, which takes the next \<open>n\<close> bytes of the tape, or fails (\<open>None\<close>)
  when the tape cannot fill the buffer. What a failed read has consumed, and whether the
  process survives it, depends on the Go release and is not modelled: the callers below
  return the tape as it was, and no property reads the tape after a failure.
\<close>

type_synonym entropy = bytes

definition rand_Read :: "nat \<Rightarrow> entropy \<Rightarrow> (bytes \<times> entropy) option" where
  "rand_Read n e = (if length e < n then None else Some (take n e, drop n e))"

subsection \<open>Errors of package crypto\<close>

text \<open>
  One constructor for each \<^verbatim>\<open>fmt.Errorf\<close> of encryption.go; a wrapping error
  (\<^verbatim>\<open>%w\<close>) carries the error it wraps. \<open>PanicBadNonceLength\<close> is the panic of
  \<^verbatim>\<open>Open\<close> on a nonce whose length is not \<^verbatim>\<open>NonceSize\<close>: it is no error value, so
  no caller wraps it.
\<close>

datatype crypto_error =
    ErrCreateAEAD
  | ErrGenerateNonce
  | ErrDecrypt
  | ErrDecryptMessage crypto_error
  | ErrDHPrivateKey
  | ErrDHPublicKey
  | ErrDHExchange
  | ErrDeriveChainKey
  | ErrSendingChainKey crypto_error
  | PanicBadNonceLength

subsection \<open>Data of package crypto\<close>

record EncryptedMessage =
  Ciphertext :: bytes
  Nonce :: bytes
  Tag :: bytes

record KeyPair =
  PublicKey :: bytes
  PrivateKey :: bytes

text \<open>
  \<open>ChainState\<close> and \<open>DoubleRatchet\<close> both have a field \<^verbatim>\<open>MessageNumber\<close>; the
  session's own is \<open>SessionMessageNumber\<close> here. The two chains are \<^verbatim>\<open>*ChainState\<close>
  in the source; every chain is allocated by \<^verbatim>\<open>NewDoubleRatchet\<close> or
  \<^verbatim>\<open>PerformDHRatchet\<close> for one field of one session, so the model holds them by value.
\<close>

record ChainState =
  ChainKey :: bytes
  MessageNumber :: uint32

record DoubleRatchet =
  RootKey :: bytes
  SendingChain :: ChainState
  ReceivingChain :: ChainState
  DHSelf :: KeyPair
  DHRemote :: bytes
  SessionMessageNumber :: uint32
  PreviousCounter :: uint32

subsection \<open>Key derivation (encryption.go)\<close>

definition deriveRootKey :: "crypto_lib \<Rightarrow> bytes \<Rightarrow> bytes" where
  "deriveRootKey L sharedSecret = sha256_Sum L sharedSecret"

definition deriveChainKey :: "crypto_lib \<Rightarrow> bytes \<Rightarrow> bytes \<Rightarrow> bytes \<Rightarrow> crypto_error + bytes" where
  "deriveChainKey L rootKey localPublic remotePublic =
     (let combined = localPublic @ remotePublic in
      case hkdf_Read L rootKey [] combined 32 of
        None \<Rightarrow> Inl ErrDeriveChainKey
      | Some chainKey \<Rightarrow> Inr chainKey)"

text \<open>The four bytes written after the chain key: the message number, low byte first.\<close>

definition le32 :: "uint32 \<Rightarrow> bytes" where
  "le32 n = [ucast n, ucast (drop_bit 8 n), ucast (drop_bit 16 n), ucast (drop_bit 24 n)]"

definition deriveMessageKey :: "crypto_lib \<Rightarrow> bytes \<Rightarrow> uint32 \<Rightarrow> bytes" where
  "deriveMessageKey L chainKey messageNumber =
     take 32 (sha256_Sum L (chainKey @ le32 messageNumber))"

definition advanceChainKey :: "crypto_lib \<Rightarrow> bytes \<Rightarrow> bytes" where
  "advanceChainKey L chainKey = take 32 (sha256_Sum L (chainKey @ [0x01]))"

text \<open>
  \<^verbatim>\<open>deriveRootAndChainKeys\<close> reads 32 bytes twice from one HKDF reader and ignores
  both errors of \<^verbatim>\<open>io.ReadFull\<close>: a buffer the reader did not fill stays as
  \<^verbatim>\<open>make\<close> left it, 32 zero bytes. The info string is \<^verbatim>\<open>"SecureChat-RootChain"\<close>.
\<close>

definition RootChain_info :: bytes where
  "RootChain_info = map (\<lambda>c. of_nat (of_char c)) ''SecureChat-RootChain''"

definition deriveRootAndChainKeys :: "crypto_lib \<Rightarrow> bytes \<Rightarrow> bytes \<Rightarrow> bytes \<times> bytes" where
  "deriveRootAndChainKeys L rootKey dhOutput =
     (let newRootKey = (case hkdf_Read L dhOutput rootKey RootChain_info 32 of
                          None \<Rightarrow> replicate 32 0 | Some okm \<Rightarrow> okm);
          newChainKey = (case hkdf_Read L dhOutput rootKey RootChain_info 64 of
                          None \<Rightarrow> replicate 32 0 | Some okm \<Rightarrow> drop 32 okm)
      in (newRootKey, newChainKey))"

subsection \<open>The AEAD wrappers (encryption.go)\<close>

text \<open>
  \<^verbatim>\<open>chacha20poly1305.New\<close> fails exactly on a key that is not \<^verbatim>\<open>KeySize\<close> bytes long.
  \<^verbatim>\<open>encryptWithKey\<close> draws a nonce of \<^verbatim>\<open>aead.NonceSize()\<close> bytes from
  \<^verbatim>\<open>rand.Read\<close> and seals with \<^verbatim>\<open>nil\<close> additional data; the field \<^verbatim>\<open>Tag\<close> is
  left \<^verbatim>\<open>nil\<close>. The entropy tape is returned as the call left it.
\<close>

definition encryptWithKey ::
  "crypto_lib \<Rightarrow> entropy \<Rightarrow> bytes \<Rightarrow> bytes \<Rightarrow> (crypto_error + EncryptedMessage) \<times> entropy" where
  "encryptWithKey L e plaintext key =
     (if length key \<noteq> KeySize then (Inl ErrCreateAEAD, e)
      else case rand_Read NonceSize e of
        None \<Rightarrow> (Inl ErrGenerateNonce, e)
      | Some (nonce, e') \<Rightarrow>
          (Inr \<lparr>Ciphertext = aead_Seal L key nonce plaintext [], Nonce = nonce, Tag = []\<rparr>, e'))"

definition decryptWithKey :: "crypto_lib \<Rightarrow> EncryptedMessage \<Rightarrow> bytes \<Rightarrow> crypto_error + bytes" where
  "decryptWithKey L encrypted key =
     (if length key \<noteq> KeySize then Inl ErrCreateAEAD
      else if length (Nonce encrypted) \<noteq> NonceSize then Inl PanicBadNonceLength
      else case aead_Open L key (Nonce encrypted) (Ciphertext encrypted) [] of
        None \<Rightarrow> Inl ErrDecrypt
      | Some plaintext \<Rightarrow> Inr plaintext)"

definition SimpleEncrypt ::
  "crypto_lib \<Rightarrow> entropy \<Rightarrow> bytes \<Rightarrow> bytes \<Rightarrow> (crypto_error + EncryptedMessage) \<times> entropy" where
  "SimpleEncrypt L e plaintext key = encryptWithKey L e plaintext key"

definition SimpleDecrypt :: "crypto_lib \<Rightarrow> EncryptedMessage \<Rightarrow> bytes \<Rightarrow> crypto_error + bytes" where
  "SimpleDecrypt L encrypted key = decryptWithKey L encrypted key"

subsection \<open>The session (encryption.go)\<close>

text \<open>
  Every method of \<^verbatim>\<open>*DoubleRatchet\<close> mutates the session in place; the model returns
  the session as the call left it, next to the result. \<^verbatim>\<open>Encrypt\<close> advances the
  sending chain before it calls \<^verbatim>\<open>encryptWithKey\<close>, so the chain is advanced also
  when sealing fails. \<^verbatim>\<open>Decrypt\<close> advances the receiving chain only after
  \<^verbatim>\<open>decryptWithKey\<close> has returned a plaintext.
\<close>

definition NewDoubleRatchet ::
  "crypto_lib \<Rightarrow> entropy \<Rightarrow> bytes \<Rightarrow> bytes \<Rightarrow> (crypto_error + DoubleRatchet) \<times> entropy" where
  "NewDoubleRatchet L e sharedSecret remotePublicKey =
     (case rand_Read 32 e of
        None \<Rightarrow> (Inl ErrDHPrivateKey, e)
      | Some (dhPrivate, e') \<Rightarrow>
         (case X25519 L dhPrivate Basepoint of
            None \<Rightarrow> (Inl ErrDHPublicKey, e')
          | Some dhPublic \<Rightarrow>
             (let dhSelf = \<lparr>PublicKey = dhPublic, PrivateKey = dhPrivate\<rparr>;
                  rootKey = deriveRootKey L sharedSecret
              in case deriveChainKey L rootKey (PublicKey dhSelf) remotePublicKey of
                   Inl err \<Rightarrow> (Inl (ErrSendingChainKey err), e')
                 | Inr sendingChainKey \<Rightarrow>
                     (Inr \<lparr>RootKey = rootKey,
                           SendingChain = \<lparr>ChainKey = sendingChainKey, MessageNumber = 0\<rparr>,
                           ReceivingChain = \<lparr>ChainKey = replicate 32 0, MessageNumber = 0\<rparr>,
                           DHSelf = dhSelf,
                           DHRemote = remotePublicKey,
                           SessionMessageNumber = 0,
                           PreviousCounter = 0\<rparr>, e'))))"

definition Encrypt ::
  "crypto_lib \<Rightarrow> DoubleRatchet \<Rightarrow> entropy \<Rightarrow> bytes
     \<Rightarrow> (crypto_error + EncryptedMessage) \<times> DoubleRatchet \<times> entropy" where
  "Encrypt L dr e plaintext =
     (let messageKey = deriveMessageKey L (ChainKey (SendingChain dr))
                         (MessageNumber (SendingChain dr));
          dr1 = dr\<lparr>SendingChain := (SendingChain dr)
                   \<lparr>ChainKey := advanceChainKey L (ChainKey (SendingChain dr))\<rparr>\<rparr>;
          dr2 = dr1\<lparr>SendingChain := (SendingChain dr1)
                   \<lparr>MessageNumber := MessageNumber (SendingChain dr1) + 1\<rparr>\<rparr>;
          (res, e') = encryptWithKey L e plaintext messageKey
      in (res, dr2, e'))"

definition Decrypt ::
  "crypto_lib \<Rightarrow> DoubleRatchet \<Rightarrow> EncryptedMessage \<Rightarrow> uint32
     \<Rightarrow> (crypto_error + bytes) \<times> DoubleRatchet" where
  "Decrypt L dr encrypted messageNumber =
     (let messageKey = deriveMessageKey L (ChainKey (ReceivingChain dr)) messageNumber in
      case decryptWithKey L encrypted messageKey of
        Inl PanicBadNonceLength \<Rightarrow> (Inl PanicBadNonceLength, dr)
      | Inl err \<Rightarrow> (Inl (ErrDecryptMessage err), dr)
      | Inr plaintext \<Rightarrow>
          (let dr1 = dr\<lparr>ReceivingChain := (ReceivingChain dr)
                        \<lparr>ChainKey := advanceChainKey L (ChainKey (ReceivingChain dr))\<rparr>\<rparr>;
               dr2 = dr1\<lparr>ReceivingChain := (ReceivingChain dr1)
                        \<lparr>MessageNumber := MessageNumber (ReceivingChain dr1) + 1\<rparr>\<rparr>
           in (Inr plaintext, dr2)))"

text \<open>
  \<^verbatim>\<open>PerformDHRatchet\<close> returns \<^verbatim>\<open>nil\<close> (\<open>None\<close>) or its error; every error
  return comes before the first assignment to the session.
\<close>

definition PerformDHRatchet ::
  "crypto_lib \<Rightarrow> DoubleRatchet \<Rightarrow> entropy \<Rightarrow> bytes
     \<Rightarrow> crypto_error option \<times> DoubleRatchet \<times> entropy" where
  "PerformDHRatchet L dr e remotePublicKey =
     (case rand_Read 32 e of
        None \<Rightarrow> (Some ErrDHPrivateKey, dr, e)
      | Some (newPrivate, e') \<Rightarrow>
         (case X25519 L newPrivate Basepoint of
            None \<Rightarrow> (Some ErrDHPublicKey, dr, e')
          | Some newPublic \<Rightarrow>
             (case X25519 L newPrivate remotePublicKey of
                None \<Rightarrow> (Some ErrDHExchange, dr, e')
              | Some sharedSecret \<Rightarrow>
                 (let (newRootKey, newChainKey) =
                        deriveRootAndChainKeys L (RootKey dr) sharedSecret
                  in (None,
                      dr\<lparr>RootKey := newRootKey,
                         DHSelf := \<lparr>PublicKey = newPublic, PrivateKey = newPrivate\<rparr>,
                         DHRemote := remotePublicKey,
                         SendingChain := \<lparr>ChainKey = newChainKey, MessageNumber = 0\<rparr>,
                         PreviousCounter := SessionMessageNumber dr,
                         SessionMessageNumber := 0\<rparr>,
                      e')))))"

subsection \<open>GetSafetyNumber (package crypto)\<close>

text \<open>
  \<^verbatim>\<open>string(a) < string(b)\<close> on byte slices: Go compares strings byte by byte, as
  unsigned values, and a proper prefix is the smaller string.
\<close>

fun string_less :: "bytes \<Rightarrow> bytes \<Rightarrow> bool" where
  "string_less [] [] = False"
| "string_less [] (y # ys) = True"
| "string_less (x # xs) [] = False"
| "string_less (x # xs) (y # ys) = (x < y \<or> (x = y \<and> string_less xs ys))"

text \<open>\<^verbatim>\<open>fmt.Sprintf("%d", digit)\<close>: the decimal digits of a number.\<close>

fun Sprintf_d :: "nat \<Rightarrow> string" where
  "Sprintf_d n =
     (if n < 10 then [char_of (48 + n)]
      else Sprintf_d (n div 10) @ [char_of (48 + n mod 10)])"

text \<open>
  The two loops of \<^verbatim>\<open>GetSafetyNumber\<close>. \<open>hash\<close> is a \<^verbatim>\<open>[32]byte\<close>, so
  \<^verbatim>\<open>len(hash)\<close> is 32. The inner loop appends five digits to the string built so far;
  the outer loop runs it for the groups 0 to 11, with a space before every group but
  the first.
\<close>

definition safetyNumber_group :: "bytes \<Rightarrow> nat \<Rightarrow> string \<Rightarrow> string" where
  "safetyNumber_group hash i safetyNumber =
     foldl (\<lambda>s j. let byteIndex = (i * 5 + j) mod 32;
                      digit = (hash ! byteIndex) mod 10
                  in s @ Sprintf_d (unat digit))
       safetyNumber [0..<5]"

definition safetyNumber_of_hash :: "bytes \<Rightarrow> string" where
  "safetyNumber_of_hash hash =
     foldl (\<lambda>s i. safetyNumber_group hash i (if i > 0 then s @ '' '' else s))
       [] [0..<12]"

text \<open>
  \<^verbatim>\<open>GetSafetyNumber\<close> builds its input with \<^verbatim>\<open>append\<close> on slices it receives from
  the caller, and \<^verbatim>\<open>append\<close> writes into the spare capacity of its first argument
  when the result fits there. So for this function a \<^verbatim>\<open>[]byte\<close> is what Go passes: a
  slice header, naming a backing array, an offset into it, a length and a capacity; the
  arrays live in a memory, a list indexed by array number. A \<^verbatim>\<open>nil\<close> slice is a header
  of capacity 0. (The session code above reads the slices it is given and appends only
  to slices it has made itself, with no spare capacity, so there a slice is its bytes.)
\<close>

record slice =
  Array :: nat
  Offset :: nat
  Len :: nat
  Cap :: nat

type_synonym memory = "bytes list"

definition slice_bytes :: "memory \<Rightarrow> slice \<Rightarrow> bytes" where
  "slice_bytes mem s = take (Len s) (drop (Offset s) (mem ! Array s))"

definition slice_ok :: "memory \<Rightarrow> slice \<Rightarrow> bool" where
  "slice_ok mem s =
     (Array s < length mem \<and> Len s \<le> Cap s \<and> Offset s + Cap s \<le> length (mem ! Array s))"

text \<open>
  \<^verbatim>\<open>append(s, xs...)\<close>: when \<^verbatim>\<open>len(s) + len(xs) <= cap(s)\<close> the bytes are written
  into the backing array of \<open>s\<close>, after its last element, and the result is \<open>s\<close>
  made longer; otherwise a new array is allocated, of the capacity the runtime's
  growth policy chooses, and the old elements and \<open>xs\<close> are copied there. The growth
  policy belongs to the runtime and is an argument, \<open>grow oldcap needed\<close>;
  \<open>grow_ok\<close> says that it gives room for what is needed, and \<open>grow_double\<close> is the
  doubling the runtime does for small slices. \<open>xs\<close> is read before anything is
  written, as \<^verbatim>\<open>append\<close> does for overlapping arguments.
\<close>

definition overwrite :: "bytes \<Rightarrow> nat \<Rightarrow> bytes \<Rightarrow> bytes" where
  "overwrite a i xs = take i a @ xs @ drop (i + length xs) a"

definition append_slice ::
  "(nat \<Rightarrow> nat \<Rightarrow> nat) \<Rightarrow> memory \<Rightarrow> slice \<Rightarrow> bytes \<Rightarrow> memory \<times> slice" where
  "append_slice grow mem s xs =
     (if Len s + length xs \<le> Cap s
      then (mem[Array s := overwrite (mem ! Array s) (Offset s + Len s) xs],
            s\<lparr>Len := Len s + length xs\<rparr>)
      else (let newcap = grow (Cap s) (Len s + length xs)
            in (mem @ [slice_bytes mem s @ xs @ replicate (newcap - (Len s + length xs)) 0],
                \<lparr>Array = length mem, Offset = 0, Len = Len s + length xs, Cap = newcap\<rparr>)))"

definition grow_ok :: "(nat \<Rightarrow> nat \<Rightarrow> nat) \<Rightarrow> bool" where
  "grow_ok grow = (\<forall>oldcap needed. needed \<le> grow oldcap needed)"

definition grow_double :: "nat \<Rightarrow> nat \<Rightarrow> nat" where
  "grow_double oldcap needed = (if 2 * oldcap < needed then needed else 2 * oldcap)"

text \<open>
  \<^verbatim>\<open>KeyPair\<close> and \<^verbatim>\<open>IdentityKeyPair\<close> as \<^verbatim>\<open>GetSafetyNumber\<close> receives them, the
  byte slices as headers.
\<close>

record KeyPairSlices =
  PublicKeySlice :: slice
  PrivateKeySlice :: slice

record IdentityKeyPair =
  SigningKey :: KeyPairSlices
  ExchangeKey :: KeyPairSlices
  Fingerprint :: string

text \<open>
  \<^verbatim>\<open>
  localCombined := append(localIdentity.SigningKey.PublicKey, localIdentity.ExchangeKey.PublicKey...)
  remoteCombined := append(remoteIdentity.SigningKey.PublicKey, remoteIdentity.ExchangeKey.PublicKey...)
  if string(localCombined) < string(remoteCombined) {
      combined = append(localCombined, remoteCombined...)
  } else {
      combined = append(remoteCombined, localCombined...)
  }
  hash := sha256.Sum256(combined)
  \<close>
  \<open>GetSafetyNumber_combined\<close> is the function up to \<^verbatim>\<open>combined\<close>: the memory as
  the three calls of \<^verbatim>\<open>append\<close> leave it, and the slice \<^verbatim>\<open>combined\<close>.
  \<open>GetSafetyNumber\<close> hashes the bytes of that slice and prints the digits; it returns
  the string and the memory, since the caller's arrays may have been written to.
\<close>

definition GetSafetyNumber_combined ::
  "(nat \<Rightarrow> nat \<Rightarrow> nat) \<Rightarrow> memory \<Rightarrow> IdentityKeyPair \<Rightarrow> IdentityKeyPair \<Rightarrow> memory \<times> slice" where
  "GetSafetyNumber_combined grow mem localIdentity remoteIdentity =
     (let (mem1, localCombined) =
            append_slice grow mem (PublicKeySlice (SigningKey localIdentity))
              (slice_bytes mem (PublicKeySlice (ExchangeKey localIdentity)));
          (mem2, remoteCombined) =
            append_slice grow mem1 (PublicKeySlice (SigningKey remoteIdentity))
              (slice_bytes mem1 (PublicKeySlice (ExchangeKey remoteIdentity)))
      in if string_less (slice_bytes mem2 localCombined) (slice_bytes mem2 remoteCombined)
         then append_slice grow mem2 localCombined (slice_bytes mem2 remoteCombined)
         else append_slice grow mem2 remoteCombined (slice_bytes mem2 localCombined))"

definition GetSafetyNumber ::
  "crypto_lib \<Rightarrow> (nat \<Rightarrow> nat \<Rightarrow> nat) \<Rightarrow> memory \<Rightarrow> IdentityKeyPair \<Rightarrow> IdentityKeyPair
     \<Rightarrow> string \<times> memory" where
  "GetSafetyNumber L grow mem localIdentity remoteIdentity =
     (let (mem3, combined) = GetSafetyNumber_combined grow mem localIdentity remoteIdentity;
          hash = sha256_Sum L (slice_bytes mem3 combined)
      in (safetyNumber_of_hash hash, mem3))"

text \<open>
  To state the format: groups joined by single spaces, the decimal digits, the digit
  the code prints for the \<open>k\<close>-th position, and the twelve groups of a hash.
\<close>

fun join_groups :: "string list \<Rightarrow> string" where
  "join_groups [] = []"
| "join_groups [g] = g"
| "join_groups (g # gs) = g @ '' '' @ join_groups gs"

definition is_decimal_digit :: "char \<Rightarrow> bool" where
  "is_decimal_digit c = (c \<in> set ''0123456789'')"

definition digit_of_hash :: "bytes \<Rightarrow> nat \<Rightarrow> char" where
  "digit_of_hash hash k = char_of (48 + unat ((hash ! (k mod 32)) mod 10))"

definition hash_groups :: "bytes \<Rightarrow> string list" where
  "hash_groups hash = map (\<lambda>i. map (digit_of_hash hash) [i * 5 ..< i * 5 + 5]) [0..<12]"

text \<open>
  To state what is hashed: \<open>sig_dh_pub mem identity\<close> is \<open>sig_pub \<parallel> dh_pub\<close>, the
  bytes of the identity's two public keys as they stand in the memory \<open>mem\<close>;
  \<open>keys_ok\<close> says that the two slices lie within their arrays, and
  \<open>no_spare_capacity\<close> that the signing key's slice has no room after its last byte,
  as the keys \<^verbatim>\<open>ed25519.GenerateKey\<close> makes have none.
\<close>

abbreviation sig_dh_pub :: "memory \<Rightarrow> IdentityKeyPair \<Rightarrow> bytes" where
  "sig_dh_pub mem identity \<equiv>
     slice_bytes mem (PublicKeySlice (SigningKey identity)) @
     slice_bytes mem (PublicKeySlice (ExchangeKey identity))"

definition keys_ok :: "memory \<Rightarrow> IdentityKeyPair \<Rightarrow> bool" where
  "keys_ok mem identity =
     (slice_ok mem (PublicKeySlice (SigningKey identity)) \<and>
      slice_ok mem (PublicKeySlice (ExchangeKey identity)))"

definition no_spare_capacity :: "IdentityKeyPair \<Rightarrow> bool" where
  "no_spare_capacity identity =
     (Cap (PublicKeySlice (SigningKey identity)) = Len (PublicKeySlice (SigningKey identity)))"

text \<open>
  Two identities to run the code on. They have the same signing key, in one array of
  64 bytes of which the key takes the first 32, and different exchange keys.
\<close>

definition shared_mem :: memory where
  "shared_mem = [replicate 32 17 @ replicate 32 0, replicate 32 33, replicate 32 200]"

definition x_identity :: IdentityKeyPair where
  "x_identity =
     \<lparr>SigningKey = \<lparr>PublicKeySlice = \<lparr>Array = 0, Offset = 0, Len = 32, Cap = 64\<rparr>,
                    PrivateKeySlice = \<lparr>Array = 0, Offset = 0, Len = 0, Cap = 0\<rparr>\<rparr>,
      ExchangeKey = \<lparr>PublicKeySlice = \<lparr>Array = 1, Offset = 0, Len = 32, Cap = 32\<rparr>,
                     PrivateKeySlice = \<lparr>Array = 0, Offset = 0, Len = 0, Cap = 0\<rparr>\<rparr>,
      Fingerprint = []\<rparr>"

definition y_identity :: IdentityKeyPair where
  "y_identity =
     \<lparr>SigningKey = \<lparr>PublicKeySlice = \<lparr>Array = 0, Offset = 0, Len = 32, Cap = 64\<rparr>,
                    PrivateKeySlice = \<lparr>Array = 0, Offset = 0, Len = 0, Cap = 0\<rparr>\<rparr>,
      ExchangeKey = \<lparr>PublicKeySlice = \<lparr>Array = 2, Offset = 0, Len = 32, Cap = 32\<rparr>,
                     PrivateKeySlice = \<lparr>Array = 0, Offset = 0, Len = 0, Cap = 0\<rparr>\<rparr>,
      Fingerprint = []\<rparr>"

section \<open>SecureChat: the relay server (server.go)\<close>

subsection \<open>Messages and client records\<close>

text \<open>
  \<^verbatim>\<open>Message\<close> is the JSON envelope of client.go. Its payload is a
  \<^verbatim>\<open>map[string]interface{}\<close>; the values the server itself writes are strings and
  lists of strings. Timestamps are \<^verbatim>\<open>int64\<close> seconds read from the clock; the model
  takes every clock reading, and every identifier made from one
  (\<^verbatim>\<open>generateMessageID\<close>, \<^verbatim>\<open>generateClientID\<close>), as an argument.
\<close>

datatype payload_value = PString string | PStrings "string list"

record Message =
  ID :: string
  Type :: string
  From :: string
  To :: string
  Timestamp :: int
  Payload :: "(string \<times> payload_value) list"
  Signature :: string

text \<open>
  \<^verbatim>\<open>ServerClient.Send\<close> is a channel of capacity 256: the messages buffered in it,
  in order, and whether \<^verbatim>\<open>removeClient\<close> has closed it. A send on a closed channel
  and a second \<^verbatim>\<open>close\<close> panic. The source's field \<^verbatim>\<open>ID\<close> is \<open>ClientID\<close> here
  (\<^verbatim>\<open>Message\<close> has an \<^verbatim>\<open>ID\<close> too), and the fields of \<^verbatim>\<open>RoutedMessage\<close> carry
  the prefix \<open>Routed\<close>.
\<close>

datatype go_panic = SendOnClosedChannel | CloseOfClosedChannel

record ServerClient =
  ClientID :: string
  UserID :: string
  Send :: "Message list"
  SendClosed :: bool
  LastSeen :: int

record RoutedMessage =
  RoutedFrom :: string
  RoutedTo :: string
  Routed :: Message

subsection \<open>The server state\<close>

text \<open>
  \<^verbatim>\<open>Server.clients\<close> is a \<^verbatim>\<open>map[string]*ServerClient\<close>, and the handlers are
  methods on \<^verbatim>\<open>*ServerClient\<close> that assign to the record the map points to. The
  model keeps the records in a store \<open>heap\<close>, from addresses to records, and the map
  holds addresses, so that an assignment through one pointer is seen through the map.
  \<open>messageQueue\<close> is the channel of capacity 1000 between the handlers and the router.
\<close>

type_synonym client_ref = nat

record Server =
  clients :: "string \<rightharpoonup> client_ref"
  heap :: "client_ref \<Rightarrow> ServerClient"
  messageQueue :: "RoutedMessage list"
  MessagesRouted :: "64 word"

definition Send_capacity :: nat where
  "Send_capacity = 256"

definition messageQueue_capacity :: nat where
  "messageQueue_capacity = 1000"

definition NewServer :: Server where
  "NewServer = \<lparr>clients = Map.empty,
                 heap = (\<lambda>_. \<lparr>ClientID = [], UserID = [], Send = [], SendClosed = False, LastSeen = 0\<rparr>),
                 messageQueue = [], MessagesRouted = 0\<rparr>"

definition addClient :: "Server \<Rightarrow> client_ref \<Rightarrow> Server" where
  "addClient s client = s\<lparr>clients := (clients s)(ClientID (heap s client) \<mapsto> client)\<rparr>"

definition removeClient :: "Server \<Rightarrow> client_ref \<Rightarrow> go_panic + Server" where
  "removeClient s client =
     (let s1 = s\<lparr>clients := (clients s)(ClientID (heap s client) := None)\<rparr> in
      if SendClosed (heap s1 client) then Inl CloseOfClosedChannel
      else Inr (s1\<lparr>heap := (heap s1)(client := (heap s1 client)\<lparr>SendClosed := True\<rparr>)\<rparr>))"

text \<open>
  \<^verbatim>\<open>handleWebSocket\<close> allocates the record of a new connection, with an empty user id,
  and registers it at once; \<open>client\<close> is the address the allocation returns.
\<close>

definition handleWebSocket :: "Server \<Rightarrow> client_ref \<Rightarrow> string \<Rightarrow> int \<Rightarrow> Server" where
  "handleWebSocket s client clientID now =
     addClient
       (s\<lparr>heap := (heap s)(client :=
             \<lparr>ClientID = clientID, UserID = [], Send = [], SendClosed = False, LastSeen = now\<rparr>)\<rparr>)
       client"

text \<open>
  \<^verbatim>\<open>findClientByUserID\<close> ranges over the map and returns the first record whose
  \<^verbatim>\<open>UserID\<close> is the one looked for. Go leaves the order of a range over a map
  unspecified, so the order of one iteration is an argument: \<open>visit\<close>, the keys in the
  order this range visits them.
\<close>

fun findClientByUserID_loop :: "Server \<Rightarrow> string list \<Rightarrow> string \<Rightarrow> client_ref option" where
  "findClientByUserID_loop s [] userID = None"
| "findClientByUserID_loop s (k # ks) userID =
     (case clients s k of
        None \<Rightarrow> findClientByUserID_loop s ks userID
      | Some client \<Rightarrow>
          if UserID (heap s client) = userID then Some client
          else findClientByUserID_loop s ks userID)"

definition findClientByUserID :: "Server \<Rightarrow> string list \<Rightarrow> string \<Rightarrow> client_ref option" where
  "findClientByUserID s visit userID = findClientByUserID_loop s visit userID"

text \<open>
  \<^verbatim>\<open>routeMessage\<close>: when no record is found the message is logged and dropped
  (\<^verbatim>\<open>// TODO: Store message for offline delivery\<close>); otherwise a non-blocking send
  to the destination's channel. \<open>messageRouter_step\<close> is one turn of the loop of
  \<^verbatim>\<open>messageRouter\<close>: it takes the next routed message, if there is one, and routes it.
\<close>

definition routeMessage :: "Server \<Rightarrow> string list \<Rightarrow> RoutedMessage \<Rightarrow> go_panic + Server" where
  "routeMessage s visit routedMsg =
     (case findClientByUserID s visit (RoutedTo routedMsg) of
        None \<Rightarrow> Inr s
      | Some destClient \<Rightarrow>
          if SendClosed (heap s destClient) then Inl SendOnClosedChannel
          else if length (Send (heap s destClient)) < Send_capacity
          then Inr (s\<lparr>heap := (heap s)(destClient := (heap s destClient)
                         \<lparr>Send := Send (heap s destClient) @ [Routed routedMsg]\<rparr>),
                      MessagesRouted := MessagesRouted s + 1\<rparr>)
          else Inr s)"

definition messageRouter_step :: "Server \<Rightarrow> string list \<Rightarrow> go_panic + Server" where
  "messageRouter_step s visit =
     (case messageQueue s of
        [] \<Rightarrow> Inr s
      | routedMsg # rest \<Rightarrow> routeMessage (s\<lparr>messageQueue := rest\<rparr>) visit routedMsg)"

subsection \<open>The handlers of a client's messages\<close>

text \<open>
  \<^verbatim>\<open>
  func (c *ServerClient) handleClientHello(msg *Message) {
      c.UserID = msg.From
      response := &Message{ ... Type: "server_hello", From: "server", To: c.UserID, ... }
      select {
      case c.Send <- response:
      default: log.Printf(...)
      }
  }
  \<close>
\<close>

definition handleClientHello ::
  "Server \<Rightarrow> client_ref \<Rightarrow> Message \<Rightarrow> string \<Rightarrow> int \<Rightarrow> go_panic + Server" where
  "handleClientHello s c msg messageID now =
     (let c1 = (heap s c)\<lparr>UserID := From msg\<rparr>;
          s1 = s\<lparr>heap := (heap s)(c := c1)\<rparr>;
          response = \<lparr>ID = messageID, Type = ''server_hello'', From = ''server'',
                      To = UserID c1, Timestamp = now,
                      Payload = [(''version'', PString ''1.0''),
                                 (''session_id'', PString (ClientID c1)),
                                 (''capabilities'', PStrings [''message_relay'', ''offline_storage''])],
                      Signature = []\<rparr>
      in if SendClosed c1 then Inl SendOnClosedChannel
         else if length (Send c1) < Send_capacity
         then Inr (s1\<lparr>heap := (heap s1)(c := c1\<lparr>Send := Send c1 @ [response]\<rparr>)\<rparr>)
         else Inr s1)"

definition handleChatMessage :: "Server \<Rightarrow> client_ref \<Rightarrow> Message \<Rightarrow> Server" where
  "handleChatMessage s c msg =
     (if To msg = [] then s
      else let routedMsg = \<lparr>RoutedFrom = UserID (heap s c), RoutedTo = To msg, Routed = msg\<rparr>
           in if length (messageQueue s) < messageQueue_capacity
              then s\<lparr>messageQueue := messageQueue s @ [routedMsg]\<rparr>
              else s)"

definition handlePresenceMessage :: "Server \<Rightarrow> client_ref \<Rightarrow> Message \<Rightarrow> Server" where
  "handlePresenceMessage s c msg = s"

definition handleMessage ::
  "Server \<Rightarrow> client_ref \<Rightarrow> Message \<Rightarrow> string \<Rightarrow> int \<Rightarrow> go_panic + Server" where
  "handleMessage s c msg messageID now =
     (if Type msg = ''client_hello'' then handleClientHello s c msg messageID now
      else if Type msg = ''chat'' then Inr (handleChatMessage s c msg)
      else if Type msg = ''presence'' then Inr (handlePresenceMessage s c msg)
      else Inr s)"


text \<open>
  One turn of the loop of \<^verbatim>\<open>readMessages\<close> for a message that parsed: it stamps
  \<^verbatim>\<open>LastSeen\<close> and dispatches.
\<close>

definition readMessages_step ::
  "Server \<Rightarrow> client_ref \<Rightarrow> Message \<Rightarrow> string \<Rightarrow> int \<Rightarrow> go_panic + Server" where
  "readMessages_step s c msg messageID now =
     handleMessage (s\<lparr>heap := (heap s)(c := (heap s c)\<lparr>LastSeen := now\<rparr>)\<rparr>) c msg messageID now"

text \<open>
  \<open>messageRouter_turns s visit n\<close> is \<open>n\<close> turns of the router's loop, one after the
  other, and \<open>messageRouter_drain\<close> the turns that empty the queue as it stands.
  \<open>stamp_LastSeen\<close> is the assignment \<^verbatim>\<open>c.LastSeen = time.Now()\<close> of
  \<^verbatim>\<open>readMessages\<close>, and \<open>no_client_of s userID\<close> says that no registered record
  carries the user id.
\<close>

fun messageRouter_turns :: "Server \<Rightarrow> string list \<Rightarrow> nat \<Rightarrow> go_panic + Server" where
  "messageRouter_turns s visit 0 = Inr s"
| "messageRouter_turns s visit (Suc n) =
     (case messageRouter_step s visit of
        Inl p \<Rightarrow> Inl p
      | Inr s' \<Rightarrow> messageRouter_turns s' visit n)"

definition messageRouter_drain :: "Server \<Rightarrow> string list \<Rightarrow> go_panic + Server" where
  "messageRouter_drain s visit = messageRouter_turns s visit (length (messageQueue s))"

definition stamp_LastSeen :: "Server \<Rightarrow> client_ref \<Rightarrow> int \<Rightarrow> Server" where
  "stamp_LastSeen s c now = s\<lparr>heap := (heap s)(c := (heap s c)\<lparr>LastSeen := now\<rparr>)\<rparr>"

definition no_client_of :: "Server \<Rightarrow> string \<Rightarrow> bool" where
  "no_client_of s userID =
     (\<forall>k client. clients s k = Some client \<longrightarrow> UserID (heap s client) \<noteq> userID)"

text \<open>
  A run to evaluate the handlers on: two connections are accepted, then each of them
  sends a \<^verbatim>\<open>client_hello\<close> for the user \<^verbatim>\<open>alice\<close>. \<open>relay2\<close> is the server after
  the first hello, \<open>relay3\<close> after the second.
\<close>

definition hello_alice :: Message where
  "hello_alice = \<lparr>ID = ''msg_0'', Type = ''client_hello'', From = ''alice'', To = [],
                   Timestamp = 100, Payload = [(''version'', PString ''1.0'')], Signature = []\<rparr>"

definition chat_to_carol :: Message where
  "chat_to_carol = \<lparr>ID = ''msg_7'', Type = ''chat'', From = ''alice'', To = ''carol'',
                     Timestamp = 110, Payload = [(''content'', PString ''hi'')], Signature = []\<rparr>"

definition relay1 :: Server where
  "relay1 = handleWebSocket (handleWebSocket NewServer 1 ''client_1'' 100) 2 ''client_2'' 101"

definition relay2 :: Server where
  "relay2 = projr (readMessages_step relay1 1 hello_alice ''msg_1'' 102)"

definition relay3 :: Server where
  "relay3 = projr (readMessages_step relay2 2 hello_alice ''msg_2'' 103)"

section \<open>SecureChat: reconnection of the network client (client.go)\<close>

text \<open>
  \<^verbatim>\<open>time.Duration\<close> is an \<^verbatim>\<open>int64\<close> of nanoseconds: a 64-bit word, read as signed.
  Of \<^verbatim>\<open>Client\<close> the model keeps the fields the reconnection reads or writes. An
  event is its type (the timestamp and the error text are left out);
  \<^verbatim>\<open>connectionEvents\<close> is a channel of capacity 10, and \<^verbatim>\<open>sendConnectionEvent\<close>
  drops an event when it is full.
\<close>

type_synonym Duration = "64 word"

definition Second :: Duration where
  "Second = 1000000000"

datatype ConnectionEventType =
    ConnectionEventConnected
  | ConnectionEventDisconnected
  | ConnectionEventReconnecting
  | ConnectionEventError

record ClientOptions =
  MaxReconnectAttempts :: int
  ReconnectDelay :: Duration

record Client =
  isConnected :: bool
  connectionEvents :: "ConnectionEventType list"
  reconnectAttempts :: int
  maxReconnectAttempts :: int
  reconnectDelay :: Duration

definition connectionEvents_capacity :: nat where
  "connectionEvents_capacity = 10"

definition NewClient :: "ClientOptions \<Rightarrow> Client" where
  "NewClient opts =
     (let opts1 = (if MaxReconnectAttempts opts = 0 then opts\<lparr>MaxReconnectAttempts := 10\<rparr> else opts);
          opts2 = (if ReconnectDelay opts1 = 0 then opts1\<lparr>ReconnectDelay := 5 * Second\<rparr> else opts1)
      in \<lparr>isConnected = False,
          connectionEvents = [],
          reconnectAttempts = 0,
          maxReconnectAttempts = MaxReconnectAttempts opts2,
          reconnectDelay = ReconnectDelay opts2\<rparr>)"

definition sendConnectionEvent :: "Client \<Rightarrow> ConnectionEventType \<Rightarrow> Client" where
  "sendConnectionEvent c event =
     (if length (connectionEvents c) < connectionEvents_capacity
      then c\<lparr>connectionEvents := connectionEvents c @ [event]\<rparr>
      else c)"

text \<open>
  \<^verbatim>\<open>Connect\<close> fails when the client is connected already, or when parsing the URL or
  dialling fails; the outcome of those two is the environment's and is the argument
  \<open>ok\<close>. On success it resets \<^verbatim>\<open>reconnectAttempts\<close> and sends the event
  \<^verbatim>\<open>Connected\<close>. The source then calls \<^verbatim>\<open>sendClientHello\<close> while it still holds
  \<^verbatim>\<open>connMutex\<close>, which \<^verbatim>\<open>writeMessage\<close> locks again; whether \<^verbatim>\<open>Connect\<close> returns
  after a good dial is outside this model, and the properties below follow failing
  dials only.
\<close>

datatype connect_error = AlreadyConnected | ConnectFailed

definition Connect :: "Client \<Rightarrow> bool \<Rightarrow> connect_error option \<times> Client" where
  "Connect c ok =
     (if isConnected c then (Some AlreadyConnected, c)
      else if \<not> ok then (Some ConnectFailed, c)
      else (None, sendConnectionEvent
                    (c\<lparr>isConnected := True, reconnectAttempts := 0\<rparr>)
                    ConnectionEventConnected))"

text \<open>
  The delay of \<^verbatim>\<open>attemptReconnection\<close>:
  \<^verbatim>\<open>
  // Wait before next attempt with exponential backoff
  delay := c.reconnectDelay * time.Duration(c.reconnectAttempts)
  if delay > 60*time.Second { delay = 60 * time.Second }
  \<close>
  The product wraps around in 64 bits and the comparison is signed.
\<close>

definition backoff_delay :: "Client \<Rightarrow> Duration" where
  "backoff_delay c =
     (let delay = reconnectDelay c * word_of_int (reconnectAttempts c)
      in if 60 * Second <s delay then 60 * Second else delay)"

text \<open>
  The loop of \<^verbatim>\<open>attemptReconnection\<close>. What the environment decides in the turn that
  makes attempt number \<open>k\<close> is \<open>env k\<close>: whether the context is done when the turn
  starts, whether the dial succeeds, and whether the context is done during the wait.
  The result is how the loop ended, the client as it left it, and the delays it waited,
  in order. The loop ends by itself, with a log line, once \<^verbatim>\<open>reconnectAttempts\<close> has
  reached \<^verbatim>\<open>maxReconnectAttempts\<close>.
\<close>

record attempt_env =
  done_at_start :: bool
  dial_ok :: bool
  done_in_wait :: bool

datatype reconnect_result = Reconnected | Cancelled | GaveUp

function attemptReconnection ::
  "(int \<Rightarrow> attempt_env) \<Rightarrow> Client \<Rightarrow> reconnect_result \<times> Client \<times> Duration list" where
  "attemptReconnection env c =
     (if reconnectAttempts c < maxReconnectAttempts c
      then (if done_at_start (env (reconnectAttempts c + 1)) then (Cancelled, c, [])
            else let c1 = c\<lparr>reconnectAttempts := reconnectAttempts c + 1\<rparr>;
                     c2 = sendConnectionEvent c1 ConnectionEventReconnecting
                 in case Connect c2 (dial_ok (env (reconnectAttempts c + 1))) of
                      (None, c3) \<Rightarrow> (Reconnected, c3, [])
                    | (Some err, c3) \<Rightarrow>
                        (let delay = backoff_delay c3 in
                         if done_in_wait (env (reconnectAttempts c + 1))
                         then (Cancelled, c3, [delay])
                         else (case attemptReconnection env c3 of
                                 (res, c4, delays) \<Rightarrow> (res, c4, delay # delays))))
      else (GaveUp, c, []))"
  by pat_completeness auto
termination
  by (relation "measure (\<lambda>(env, c). nat (maxReconnectAttempts c - reconnectAttempts c))")
     (auto simp: Connect_def sendConnectionEvent_def split: if_splits)

text \<open>
  An environment in which every dial fails and nothing is cancelled, and the client
  \<^verbatim>\<open>NewClient\<close> makes from options left at their zero values.
\<close>

definition always_failing :: "int \<Rightarrow> attempt_env" where
  "always_failing k = \<lparr>done_at_start = False, dial_ok = False, done_in_wait = False\<rparr>"

definition default_client :: Client where
  "default_client = NewClient \<lparr>MaxReconnectAttempts = 0, ReconnectDelay = 0\<rparr>"

text \<open>
  Following the spec's words: the delay \<open>d\<close> of attempt \<open>k\<close> is
  \<open>min(base \<times> 2^k, 60 s)\<close> scaled by a factor in \<open>[0.75, 1.25]\<close>; in nanoseconds,
  with the factor's bounds multiplied out by 4.
\<close>

definition in_spec_backoff_range :: "int \<Rightarrow> nat \<Rightarrow> int \<Rightarrow> bool" where
  "in_spec_backoff_range base k d =
     (3 * min (base * 2 ^ k) 60000000000 \<le> 4 * d \<and> 4 * d \<le> 5 * min (base * 2 ^ k) 60000000000)"

text \<open>
  \<open>newly_sent c c'\<close>: every event in the channel of \<open>c'\<close> was there in \<open>c\<close>
  already or is a \<^verbatim>\<open>Reconnecting\<close> event.
\<close>

definition newly_sent :: "Client \<Rightarrow> Client \<Rightarrow> bool" where
  "newly_sent c c' =
     list_all (\<lambda>e. e = ConnectionEventReconnecting \<or> e \<in> set (connectionEvents c))
       (connectionEvents c')"

section \<open>Inputs and contracts for the theorems\<close>

subsection \<open>What the theorems ask of the libraries\<close>

text \<open>
  Two facts about the libraries are used, each stated where a theorem needs it: the
  AEAD opens what it sealed, under the same key, nonce and additional data (for a key and
  a nonce of the sizes the cipher takes), and a SHA-256 digest is 32 bytes long.
\<close>

definition aead_correct :: "crypto_lib \<Rightarrow> bool" where
  "aead_correct L = (\<forall>key nonce plaintext ad.
      length key = KeySize \<and> length nonce = NonceSize \<longrightarrow>
      aead_Open L key nonce (aead_Seal L key nonce plaintext ad) ad = Some plaintext)"

definition sha256_sized :: "crypto_lib \<Rightarrow> bool" where
  "sha256_sized L = (\<forall>m. length (sha256_Sum L m) = 32)"

subsection \<open>A small library to run the code on\<close>

text \<open>
  To evaluate the functions above at concrete inputs the library parameter needs a
  value. \<open>toy_lib\<close> is the smallest one with the shape of the real libraries: digests
  of 32 bytes, an HKDF stream of the length asked for, a key agreement on 32-byte inputs
  and an AEAD that prepends a one-byte tag of key, nonce and additional data and opens
  only under a matching tag. It has no cryptographic strength and stands for none; the
  control flow of the package does not look inside these values.
\<close>

definition toy_digest :: "bytes \<Rightarrow> bytes" where
  "toy_digest m = map (\<lambda>i. sum_list m + of_nat (length m) + of_nat i) [0..<32]"

definition toy_hkdf :: "bytes \<Rightarrow> bytes \<Rightarrow> bytes \<Rightarrow> nat \<Rightarrow> bytes option" where
  "toy_hkdf secret salt info n =
     (if n \<le> 8160
      then Some (map (\<lambda>i. sum_list secret + sum_list salt + sum_list info + of_nat i) [0..<n])
      else None)"

definition toy_X25519 :: "bytes \<Rightarrow> bytes \<Rightarrow> bytes option" where
  "toy_X25519 scalar point =
     (if length scalar = 32 \<and> length point = 32 then Some (map2 (+) scalar point) else None)"

definition toy_tag :: "bytes \<Rightarrow> bytes \<Rightarrow> bytes \<Rightarrow> byte" where
  "toy_tag key nonce ad = sum_list key + sum_list nonce + sum_list ad"

definition toy_Seal :: "bytes \<Rightarrow> bytes \<Rightarrow> bytes \<Rightarrow> bytes \<Rightarrow> bytes" where
  "toy_Seal key nonce plaintext ad = toy_tag key nonce ad # plaintext"

definition toy_Open :: "bytes \<Rightarrow> bytes \<Rightarrow> bytes \<Rightarrow> bytes \<Rightarrow> bytes option" where
  "toy_Open key nonce ciphertext ad =
     (case ciphertext of
        [] \<Rightarrow> None
      | t # plaintext \<Rightarrow> if t = toy_tag key nonce ad then Some plaintext else None)"

definition toy_lib :: crypto_lib where
  "toy_lib = \<lparr>sha256_Sum = toy_digest, hkdf_Read = toy_hkdf, X25519 = toy_X25519,
              aead_Seal = toy_Seal, aead_Open = toy_Open\<rparr>"

text \<open>
  Two sessions that share a chain key: \<open>alice_session\<close> is about to send message
  number 1000 on the chain that \<open>bob_session\<close> receives on, while Bob's receiving
  chain stands at message number 5. \<open>tape_a\<close> and \<open>tape_b\<close> are two entropy tapes.
\<close>

definition alice_session :: DoubleRatchet where
  "alice_session =
     \<lparr>RootKey = replicate 32 7,
      SendingChain = \<lparr>ChainKey = replicate 32 1, MessageNumber = 1000\<rparr>,
      ReceivingChain = \<lparr>ChainKey = replicate 32 0, MessageNumber = 0\<rparr>,
      DHSelf = \<lparr>PublicKey = replicate 32 2, PrivateKey = replicate 32 3\<rparr>,
      DHRemote = replicate 32 4,
      SessionMessageNumber = 0,
      PreviousCounter = 0\<rparr>"

definition bob_session :: DoubleRatchet where
  "bob_session =
     \<lparr>RootKey = replicate 32 7,
      SendingChain = \<lparr>ChainKey = replicate 32 9, MessageNumber = 3\<rparr>,
      ReceivingChain = \<lparr>ChainKey = replicate 32 1, MessageNumber = 5\<rparr>,
      DHSelf = \<lparr>PublicKey = replicate 32 4, PrivateKey = replicate 32 5\<rparr>,
      DHRemote = replicate 32 2,
      SessionMessageNumber = 2,
      PreviousCounter = 0\<rparr>"

definition tape_a :: entropy where
  "tape_a = [1, 2, 3, 4, 5, 6, 7, 8, 9, 10, 11, 12]"

definition tape_b :: entropy where
  "tape_b = [21, 22, 23, 24, 25, 26, 27, 28, 29, 30, 31, 32]"

text \<open>
  A third fact holds of an AEAD used with honest keys: a ciphertext sealed under one
  key does not open under another. \<open>keyed_lib\<close> is \<open>toy_lib\<close> with an AEAD that
  has this property as well: the ciphertext carries the key in front of the plaintext
  and opens under that key only.
\<close>

definition aead_key_bound :: "crypto_lib \<Rightarrow> bool" where
  "aead_key_bound L = (\<forall>key key' nonce plaintext ad.
      length key = KeySize \<and> length key' = KeySize \<and> key' \<noteq> key \<longrightarrow>
      aead_Open L key' nonce (aead_Seal L key nonce plaintext ad) ad = None)"

definition keyed_Seal :: "bytes \<Rightarrow> bytes \<Rightarrow> bytes \<Rightarrow> bytes \<Rightarrow> bytes" where
  "keyed_Seal key nonce plaintext ad = key @ plaintext"

definition keyed_Open :: "bytes \<Rightarrow> bytes \<Rightarrow> bytes \<Rightarrow> bytes \<Rightarrow> bytes option" where
  "keyed_Open key nonce ciphertext ad =
     (if take (length key) ciphertext = key then Some (drop (length key) ciphertext) else None)"

definition keyed_lib :: crypto_lib where
  "keyed_lib = \<lparr>sha256_Sum = toy_digest, hkdf_Read = toy_hkdf, X25519 = toy_X25519,
                aead_Seal = keyed_Seal, aead_Open = keyed_Open\<rparr>"

text \<open>
  Two sessions as the package makes them: Alice and Bob call \<^verbatim>\<open>NewDoubleRatchet\<close>
  with the same shared secret, Bob with Alice's ratchet public key as his remote key.
\<close>

definition shared_secret :: bytes where
  "shared_secret = replicate 32 42"

definition alice_made :: DoubleRatchet where
  "alice_made = projr (fst (NewDoubleRatchet keyed_lib (replicate 32 3) shared_secret (replicate 32 4)))"

definition bob_made :: DoubleRatchet where
  "bob_made = projr (fst (NewDoubleRatchet keyed_lib (replicate 32 5) shared_secret
                            (PublicKey (DHSelf alice_made))))"

text \<open>
  Following the spec's words: \<^verbatim>\<open>u96_from(sending_chain.N)\<close>, the 96-bit encoding of
  a message number. The spec fixes no byte order; \<open>u96_from\<close> is the big-endian one
  and \<open>u96_from_le\<close> the little-endian one.
\<close>

definition u96_from :: "uint32 \<Rightarrow> bytes" where
  "u96_from n = replicate 8 0 @ rev (le32 n)"

definition u96_from_le :: "uint32 \<Rightarrow> bytes" where
  "u96_from_le n = le32 n @ replicate 8 0"

section \<open>Properties\<close>

subsection \<open>SecureCompare\<close>

lemma byte_or_eq_0: "(x OR y = (0::byte)) = (x = 0 \<and> y = 0)"
  by (rule or_eq_0_iff)

lemma byte_xor_eq_0: "(x XOR y = (0::byte)) = (x = y)"
  by (metis xor.right_neutral xor_self_eq bit.xor_left_self)

lemma SecureCompare_loop_zero:
  "(SecureCompare_loop a b i result = 0) =
     (result = 0 \<and> (\<forall>j. i \<le> j \<and> j < length a \<longrightarrow> a ! j = b ! j))"
proof (induction a b i result rule: SecureCompare_loop.induct)
  case (1 a b i result)
  show ?case
  proof (cases "i < length a")
    case True
    have split: "(\<forall>j. i \<le> j \<and> j < length a \<longrightarrow> a ! j = b ! j) =
        (a ! i = b ! i \<and> (\<forall>j. i + 1 \<le> j \<and> j < length a \<longrightarrow> a ! j = b ! j))"
    proof -
      have "\<And>j. (i \<le> j) = (j = i \<or> i + 1 \<le> j)" by arith
      then show ?thesis using True by auto
    qed
    have "(SecureCompare_loop a b i result = 0) =
        (SecureCompare_loop a b (i + 1) (result OR ((a ! i) XOR (b ! i))) = 0)"
      using True by (subst SecureCompare_loop.simps) simp
    also have "\<dots> = ((result OR ((a ! i) XOR (b ! i))) = 0 \<and>
        (\<forall>j. i + 1 \<le> j \<and> j < length a \<longrightarrow> a ! j = b ! j))"
      using "1.IH" [OF True] .
    also have "\<dots> = (result = 0 \<and> (\<forall>j. i \<le> j \<and> j < length a \<longrightarrow> a ! j = b ! j))"
      by (simp only: byte_or_eq_0 byte_xor_eq_0 split conj_assoc)
    finally show ?thesis .
  next
    case False
    then show ?thesis by (subst SecureCompare_loop.simps) auto
  qed
qed

text \<open>
  C10. For all byte slices \<open>a\<close> and \<open>b\<close>, \<open>SecureCompare a b\<close> returns true if and
  only if \<open>a\<close> and \<open>b\<close> have the same length and are byte-for-byte equal.
\<close>

theorem SecureCompare_iff:
  "SecureCompare a b = (length a = length b \<and> a = b)"
proof (cases "length a = length b")
  case True
  have "(SecureCompare_loop a b 0 0 = 0) = (\<forall>i < length a. a ! i = b ! i)"
    by (simp only: SecureCompare_loop_zero) simp
  also have "\<dots> = (a = b)"
    using True by (simp only: list_eq_iff_nth_eq) simp
  finally show ?thesis using True by (simp only: SecureCompare_def) simp
next
  case False
  then show ?thesis by (simp only: SecureCompare_def) auto
qed

subsection \<open>The AEAD wrappers\<close>

lemma length_deriveMessageKey:
  "sha256_sized L \<Longrightarrow> length (deriveMessageKey L chainKey n) = KeySize"
  by (simp add: sha256_sized_def deriveMessageKey_def KeySize_def)

lemma rand_Read_enough: "n \<le> length e \<Longrightarrow> rand_Read n e = Some (take n e, drop n e)"
  by (simp add: rand_Read_def)

lemma encryptWithKey_Inr:
  assumes "encryptWithKey L e plaintext key = (Inr msg, e')"
  shows "length key = KeySize \<and> NonceSize \<le> length e \<and>
         msg = \<lparr>Ciphertext = aead_Seal L key (take NonceSize e) plaintext [],
                Nonce = take NonceSize e, Tag = []\<rparr> \<and>
         e' = drop NonceSize e"
  using assms
  by (auto simp: encryptWithKey_def rand_Read_def split: if_splits)

lemma encryptWithKey_succeeds:
  assumes "length key = KeySize" and "NonceSize \<le> length e"
  shows "encryptWithKey L e plaintext key =
           (Inr \<lparr>Ciphertext = aead_Seal L key (take NonceSize e) plaintext [],
                 Nonce = take NonceSize e, Tag = []\<rparr>, drop NonceSize e)"
  using assms by (simp add: encryptWithKey_def rand_Read_enough)

lemma decryptWithKey_sealed:
  assumes "aead_correct L" and "length key = KeySize" and "length nonce = NonceSize"
  shows "decryptWithKey L \<lparr>Ciphertext = aead_Seal L key nonce plaintext [],
                            Nonce = nonce, Tag = t\<rparr> key = Inr plaintext"
  using assms by (simp add: decryptWithKey_def aead_correct_def)


lemma SimpleDecrypt_SimpleEncrypt:
  assumes "aead_correct L" and "length key = KeySize" and "NonceSize \<le> length e"
  shows "\<exists>msg e'. SimpleEncrypt L e plaintext key = (Inr msg, e') \<and>
                   SimpleDecrypt L msg key = Inr plaintext"
  using assms
  by (simp add: SimpleEncrypt_def SimpleDecrypt_def encryptWithKey_succeeds decryptWithKey_sealed)

lemma toy_lib_aead_correct: "aead_correct toy_lib"
  by (simp add: aead_correct_def toy_lib_def toy_Seal_def toy_Open_def)

lemma toy_lib_sha256_sized: "sha256_sized toy_lib"
  by (simp add: sha256_sized_def toy_lib_def toy_digest_def)

subsection \<open>Encrypt and Decrypt\<close>

text \<open>
  What \<^verbatim>\<open>NewDoubleRatchet\<close> sets up: a sending chain keyed from the HKDF of the root
  key, and a receiving chain whose key is the 32 zero bytes of \<^verbatim>\<open>make\<close>
  (\<^verbatim>\<open>// Will be derived when receiving\<close>). No function of the package assigns the
  receiving chain key but \<^verbatim>\<open>Decrypt\<close>, which advances it.
\<close>

lemma NewDoubleRatchet_chains:
  assumes "NewDoubleRatchet L e sharedSecret remotePublicKey = (Inr dr, e')"
  shows "ReceivingChain dr = \<lparr>ChainKey = replicate 32 0, MessageNumber = 0\<rparr> \<and>
         MessageNumber (SendingChain dr) = 0 \<and>
         RootKey dr = deriveRootKey L sharedSecret \<and>
         deriveChainKey L (RootKey dr) (PublicKey (DHSelf dr)) remotePublicKey
           = Inr (ChainKey (SendingChain dr))"
  using assms
  by (auto simp: NewDoubleRatchet_def Let_def split: option.splits sum.splits)

lemma Encrypt_unfold:
  "Encrypt L dr e plaintext =
     (fst (encryptWithKey L e plaintext
        (deriveMessageKey L (ChainKey (SendingChain dr)) (MessageNumber (SendingChain dr)))),
      dr\<lparr>SendingChain := \<lparr>ChainKey = advanceChainKey L (ChainKey (SendingChain dr)),
                            MessageNumber = MessageNumber (SendingChain dr) + 1\<rparr>\<rparr>,
      snd (encryptWithKey L e plaintext
        (deriveMessageKey L (ChainKey (SendingChain dr)) (MessageNumber (SendingChain dr)))))"
  by (simp add: Encrypt_def Let_def split: prod.splits)

lemma Decrypt_Inr:
  assumes "decryptWithKey L encrypted
             (deriveMessageKey L (ChainKey (ReceivingChain dr)) n) = Inr plaintext"
  shows "Decrypt L dr encrypted n =
           (Inr plaintext,
            dr\<lparr>ReceivingChain := \<lparr>ChainKey = advanceChainKey L (ChainKey (ReceivingChain dr)),
                                   MessageNumber = MessageNumber (ReceivingChain dr) + 1\<rparr>\<rparr>)"
  using assms by (simp add: Decrypt_def Let_def)

lemma Decrypt_Inl:
  assumes "decryptWithKey L encrypted
             (deriveMessageKey L (ChainKey (ReceivingChain dr)) n) = Inl err"
  shows "Decrypt L dr encrypted n =
           (Inl (if err = PanicBadNonceLength then PanicBadNonceLength
                 else ErrDecryptMessage err), dr)"
  using assms by (cases err) (simp_all add: Decrypt_def Let_def)

lemma Decrypt_keeps_ratchet_keys:
  "RootKey (snd (Decrypt L dr encrypted n)) = RootKey dr \<and>
   DHSelf (snd (Decrypt L dr encrypted n)) = DHSelf dr \<and>
   DHRemote (snd (Decrypt L dr encrypted n)) = DHRemote dr \<and>
   SendingChain (snd (Decrypt L dr encrypted n)) = SendingChain dr"
proof (cases "decryptWithKey L encrypted (deriveMessageKey L (ChainKey (ReceivingChain dr)) n)")
  case (Inl err)
  show ?thesis by (simp add: Decrypt_Inl [OF Inl])
next
  case (Inr plaintext)
  show ?thesis by (simp add: Decrypt_Inr [OF Inr])
qed

text \<open>
  When the receiver's receiving chain has the key of the sender's sending chain, a
  message that \<^verbatim>\<open>Encrypt\<close> produced from plaintext \<open>p\<close> is decrypted to \<open>p\<close> by
  \<^verbatim>\<open>Decrypt\<close>, called with the sender's message number, and the chains agree again
  afterwards. \<^verbatim>\<open>Encrypt\<close> and \<^verbatim>\<open>Decrypt\<close> take no associated data and pass
  \<^verbatim>\<open>nil\<close> to the AEAD on both sides.
\<close>

lemma Decrypt_Encrypt_matching_chains:
  assumes "aead_correct L" and "sha256_sized L"
    and "ChainKey (ReceivingChain receiver) = ChainKey (SendingChain sender)"
    and "NonceSize \<le> length e"
  shows "\<exists>msg sender' e' receiver'.
           Encrypt L sender e plaintext = (Inr msg, sender', e') \<and>
           Decrypt L receiver msg (MessageNumber (SendingChain sender)) = (Inr plaintext, receiver') \<and>
           ChainKey (ReceivingChain receiver') = ChainKey (SendingChain sender')"
proof -
  let ?key = "deriveMessageKey L (ChainKey (SendingChain sender)) (MessageNumber (SendingChain sender))"
  let ?msg = "\<lparr>Ciphertext = aead_Seal L ?key (take NonceSize e) plaintext [],
               Nonce = take NonceSize e, Tag = []\<rparr>"
  have key: "length ?key = KeySize"
    using assms(2) by (rule length_deriveMessageKey)
  have enc: "encryptWithKey L e plaintext ?key = (Inr ?msg, drop NonceSize e)"
    using key assms(4) by (rule encryptWithKey_succeeds)
  have nonce: "length (take NonceSize e) = NonceSize"
    using assms(4) by simp
  have "decryptWithKey L ?msg ?key = Inr plaintext"
    using assms(1) key nonce by (rule decryptWithKey_sealed)
  then have dec: "decryptWithKey L ?msg
      (deriveMessageKey L (ChainKey (ReceivingChain receiver)) (MessageNumber (SendingChain sender)))
        = Inr plaintext"
    by (simp only: assms(3))
  show ?thesis
    by (simp add: Encrypt_unfold enc Decrypt_Inr [OF dec] assms(3))
qed

lemma keyed_lib_aead_correct: "aead_correct keyed_lib"
  by (simp add: aead_correct_def keyed_lib_def keyed_Seal_def keyed_Open_def)

lemma keyed_lib_aead_key_bound: "aead_key_bound keyed_lib"
  by (auto simp: aead_key_bound_def keyed_lib_def keyed_Seal_def keyed_Open_def)

lemma keyed_lib_sha256_sized: "sha256_sized keyed_lib"
  by (simp add: sha256_sized_def keyed_lib_def toy_digest_def)

text \<open>
  C1. Round-trip of the session cipher, for sessions as \<^verbatim>\<open>NewDoubleRatchet\<close>
  establishes them. The claim asks that the receiver decrypts what the sender encrypted.
  The code does not: the receiver's chain key is the 32 zero bytes the constructor left
  there, whatever the shared secret, so \<^verbatim>\<open>Decrypt\<close> derives its message key from
  them and not from the sender's chain. With 32-byte digests, an AEAD that opens a
  ciphertext under the sealing key only, and the two message keys different,
  \<^verbatim>\<open>Decrypt\<close> of the first message the sender's \<^verbatim>\<open>Encrypt\<close> returned fails with the
  decryption error, and the receiver's session is unchanged.
\<close>

theorem constructed_sessions_fail_roundtrip:
  assumes "sha256_sized L" and "aead_key_bound L"
    and "NewDoubleRatchet L ea sharedSecret bobPublic = (Inr alice, ea')"
    and "NewDoubleRatchet L eb sharedSecret alicePublic = (Inr bob, eb')"
    and "Encrypt L alice e plaintext = (Inr msg, alice', e')"
    and "deriveMessageKey L (ChainKey (SendingChain alice)) 0
           \<noteq> deriveMessageKey L (replicate 32 0) 0"
  shows "ChainKey (ReceivingChain bob) = replicate 32 0 \<and>
         MessageNumber (SendingChain alice) = 0 \<and>
         Decrypt L bob msg 0 = (Inl (ErrDecryptMessage ErrDecrypt), bob)"
proof -
  let ?ka = "deriveMessageKey L (ChainKey (SendingChain alice)) 0"
  let ?kb = "deriveMessageKey L (replicate 32 0) 0"
  have b: "ChainKey (ReceivingChain bob) = replicate 32 0"
    using NewDoubleRatchet_chains [OF assms(4)] by simp
  have a: "MessageNumber (SendingChain alice) = 0"
    using NewDoubleRatchet_chains [OF assms(3)] by simp
  have "encryptWithKey L e plaintext ?ka = (Inr msg, e')"
    using assms(5) by (simp add: Encrypt_unfold prod_eq_iff a)
  from encryptWithKey_Inr [OF this]
  have m: "msg = \<lparr>Ciphertext = aead_Seal L ?ka (take NonceSize e) plaintext [],
                  Nonce = take NonceSize e, Tag = []\<rparr>"
    and n: "NonceSize \<le> length e"
    by simp_all
  have la: "length ?ka = KeySize" and lb: "length ?kb = KeySize"
    using assms(1) by (simp_all add: length_deriveMessageKey)
  have "aead_Open L ?kb (take NonceSize e) (aead_Seal L ?ka (take NonceSize e) plaintext []) []
          = None"
    using assms(2,6) la lb by (simp add: aead_key_bound_def)
  then have "aead_Open L (deriveMessageKey L (ChainKey (ReceivingChain bob)) 0)
               (Nonce msg) (Ciphertext msg) [] = None"
    by (simp add: m b)
  moreover have "length (Nonce msg) = NonceSize"
    using n by (simp add: m)
  ultimately have "decryptWithKey L msg (deriveMessageKey L (ChainKey (ReceivingChain bob)) 0)
      = Inl ErrDecrypt"
    using lb by (simp add: decryptWithKey_def b)
  from Decrypt_Inl [OF this] show ?thesis
    using a b by simp
qed

text \<open>
  Alice and Bob built by \<^verbatim>\<open>NewDoubleRatchet\<close> from one shared secret, under a library
  whose AEAD opens what it sealed and is bound to the key: Bob cannot decrypt Alice's
  first message.
\<close>

theorem constructed_sessions_fail_roundtrip_witness:
  "sha256_sized keyed_lib \<and> aead_key_bound keyed_lib \<and> aead_correct keyed_lib \<and>
   NewDoubleRatchet keyed_lib (replicate 32 3) shared_secret (replicate 32 4)
     = (Inr alice_made, []) \<and>
   NewDoubleRatchet keyed_lib (replicate 32 5) shared_secret (PublicKey (DHSelf alice_made))
     = (Inr bob_made, []) \<and>
   fst (Encrypt keyed_lib alice_made tape_a [104, 105])
     = Inr (projr (fst (Encrypt keyed_lib alice_made tape_a [104, 105]))) \<and>
   deriveMessageKey keyed_lib (ChainKey (SendingChain alice_made)) 0
     \<noteq> deriveMessageKey keyed_lib (replicate 32 0) 0 \<and>
   ChainKey (ReceivingChain bob_made) = replicate 32 0 \<and>
   Decrypt keyed_lib bob_made (projr (fst (Encrypt keyed_lib alice_made tape_a [104, 105]))) 0
     = (Inl (ErrDecryptMessage ErrDecrypt), bob_made)"
proof -
  let ?run = "Encrypt keyed_lib alice_made tape_a [104, 105]"
  have a: "NewDoubleRatchet keyed_lib (replicate 32 3) shared_secret (replicate 32 4)
     = (Inr alice_made, [])"
    by code_simp
  have b: "NewDoubleRatchet keyed_lib (replicate 32 5) shared_secret (PublicKey (DHSelf alice_made))
     = (Inr bob_made, [])"
    by code_simp
  have ok: "fst ?run = Inr (projr (fst ?run))"
    by code_simp
  then have e: "?run = (Inr (projr (fst ?run)), fst (snd ?run), snd (snd ?run))"
    by (simp add: prod_eq_iff)
  have k: "deriveMessageKey keyed_lib (ChainKey (SendingChain alice_made)) 0
     \<noteq> deriveMessageKey keyed_lib (replicate 32 0) 0"
    by code_simp
  show ?thesis
    using constructed_sessions_fail_roundtrip
      [OF keyed_lib_sha256_sized keyed_lib_aead_key_bound a b e k]
      keyed_lib_sha256_sized keyed_lib_aead_key_bound keyed_lib_aead_correct a b ok k
    by simp
qed

text \<open>
  C4. Decrypt failure atomicity: when the AEAD tag of an envelope does not verify
  (\<^verbatim>\<open>Open\<close> fails under the message key of the receiving chain), \<^verbatim>\<open>Decrypt\<close>
  returns the decryption error and the session is exactly as before the call.
\<close>

theorem Decrypt_auth_failure_keeps_state:
  assumes "sha256_sized L" and "length (Nonce encrypted) = NonceSize"
    and "aead_Open L (deriveMessageKey L (ChainKey (ReceivingChain dr)) n)
           (Nonce encrypted) (Ciphertext encrypted) [] = None"
  shows "Decrypt L dr encrypted n = (Inl (ErrDecryptMessage ErrDecrypt), dr)"
proof -
  have "decryptWithKey L encrypted (deriveMessageKey L (ChainKey (ReceivingChain dr)) n)
          = Inl ErrDecrypt"
    using assms by (simp add: decryptWithKey_def length_deriveMessageKey)
  from Decrypt_Inl [OF this] show ?thesis by simp
qed

text \<open>
  An envelope whose tag byte is wrong: \<^verbatim>\<open>Open\<close> fails and Bob's session is untouched.
\<close>

theorem Decrypt_auth_failure_keeps_state_witness:
  "sha256_sized toy_lib \<and>
   length (Nonce \<lparr>Ciphertext = [0, 104, 105], Nonce = tape_a, Tag = []\<rparr>) = NonceSize \<and>
   aead_Open toy_lib (deriveMessageKey toy_lib (ChainKey (ReceivingChain bob_session)) 5)
     (Nonce \<lparr>Ciphertext = [0, 104, 105], Nonce = tape_a, Tag = []\<rparr>)
     (Ciphertext \<lparr>Ciphertext = [0, 104, 105], Nonce = tape_a, Tag = []\<rparr>) [] = None \<and>
   Decrypt toy_lib bob_session \<lparr>Ciphertext = [0, 104, 105], Nonce = tape_a, Tag = []\<rparr> 5
     = (Inl (ErrDecryptMessage ErrDecrypt), bob_session)"
proof -
  have h2: "length (Nonce \<lparr>Ciphertext = [0, 104, 105], Nonce = tape_a, Tag = []\<rparr>) = NonceSize"
    by (simp add: NonceSize_def tape_a_def)
  have h3: "aead_Open toy_lib (deriveMessageKey toy_lib (ChainKey (ReceivingChain bob_session)) 5)
     (Nonce \<lparr>Ciphertext = [0, 104, 105], Nonce = tape_a, Tag = []\<rparr>)
     (Ciphertext \<lparr>Ciphertext = [0, 104, 105], Nonce = tape_a, Tag = []\<rparr>) [] = None"
    by code_simp
  show ?thesis
    using Decrypt_auth_failure_keeps_state [OF toy_lib_sha256_sized h2 h3]
      toy_lib_sha256_sized h2 h3
    by blast
qed




text \<open>
  C5 (as amended). In every \<^verbatim>\<open>Encrypt\<close> call that returns a message, the nonce
  handed to the AEAD's \<^verbatim>\<open>Seal\<close> is the next \<^verbatim>\<open>NonceSize\<close> = 12 bytes delivered by
  \<^verbatim>\<open>rand.Read\<close>: the ciphertext is the plaintext sealed under the message key and
  those twelve bytes, the same bytes are stored in the field \<^verbatim>\<open>Nonce\<close>, and they are
  consumed from the generator. The message number takes part in the key only.
\<close>

theorem Encrypt_nonce_is_random:
  assumes "Encrypt L dr e plaintext = (Inr msg, dr', e')"
  shows "Ciphertext msg =
           aead_Seal L
             (deriveMessageKey L (ChainKey (SendingChain dr)) (MessageNumber (SendingChain dr)))
             (take NonceSize e) plaintext [] \<and>
         Nonce msg = take NonceSize e \<and> length (Nonce msg) = NonceSize \<and>
         e' = drop NonceSize e"
proof -
  let ?key = "deriveMessageKey L (ChainKey (SendingChain dr)) (MessageNumber (SendingChain dr))"
  have "encryptWithKey L e plaintext ?key = (Inr msg, e')"
    using assms by (simp add: Encrypt_unfold prod_eq_iff)
  from encryptWithKey_Inr [OF this] show ?thesis by simp
qed

text \<open>
  Alice's \<^verbatim>\<open>Encrypt\<close> on the tape \<open>tape_a\<close>: the message is sealed under the tape's
  twelve bytes, they are its nonce, and the tape is used up.
\<close>

theorem Encrypt_nonce_is_random_witness:
  "fst (Encrypt toy_lib alice_session tape_a [104, 105])
     = Inr \<lparr>Ciphertext = [30, 104, 105], Nonce = tape_a, Tag = []\<rparr> \<and>
   Ciphertext \<lparr>Ciphertext = [30, 104, 105], Nonce = tape_a, Tag = []\<rparr> =
     aead_Seal toy_lib
       (deriveMessageKey toy_lib (ChainKey (SendingChain alice_session))
          (MessageNumber (SendingChain alice_session)))
       (take NonceSize tape_a) [104, 105] [] \<and>
   Nonce \<lparr>Ciphertext = [30, 104, 105], Nonce = tape_a, Tag = []\<rparr> = take NonceSize tape_a \<and>
   length (Nonce \<lparr>Ciphertext = [30, 104, 105], Nonce = tape_a, Tag = []\<rparr>) = NonceSize \<and>
   snd (snd (Encrypt toy_lib alice_session tape_a [104, 105])) = drop NonceSize tape_a"
proof -
  let ?run = "Encrypt toy_lib alice_session tape_a [104, 105]"
  have ok: "fst ?run = Inr \<lparr>Ciphertext = [30, 104, 105], Nonce = tape_a, Tag = []\<rparr>"
    by code_simp
  then have h: "?run = (Inr \<lparr>Ciphertext = [30, 104, 105], Nonce = tape_a, Tag = []\<rparr>,
                        fst (snd ?run), snd (snd ?run))"
    by (simp add: prod_eq_iff)
  show ?thesis
    using Encrypt_nonce_is_random [OF h] ok by blast
qed

text \<open>
  The claim as stated fails here: from one and the same session state, at message
  number 1000, two tapes give two different nonces and two different ciphertexts, and
  the first nonce is not the 96-bit encoding of 1000 in either byte order.
\<close>

theorem Encrypt_nonce_counterexample:
  "Nonce (projr (fst (Encrypt toy_lib alice_session tape_a [104, 105]))) = tape_a \<and>
   Nonce (projr (fst (Encrypt toy_lib alice_session tape_b [104, 105]))) = tape_b \<and>
   tape_a \<noteq> tape_b \<and>
   Ciphertext (projr (fst (Encrypt toy_lib alice_session tape_a [104, 105]))) \<noteq>
     Ciphertext (projr (fst (Encrypt toy_lib alice_session tape_b [104, 105]))) \<and>
   tape_a \<noteq> u96_from (MessageNumber (SendingChain alice_session)) \<and>
   tape_a \<noteq> u96_from_le (MessageNumber (SendingChain alice_session))"
  by code_simp

subsection \<open>The DH ratchet\<close>

lemma PerformDHRatchet_None:
  assumes "PerformDHRatchet L dr e remotePublicKey = (None, dr', e')"
  shows "\<exists>newPrivate newPublic sharedSecret.
           rand_Read 32 e = Some (newPrivate, e') \<and>
           X25519 L newPrivate Basepoint = Some newPublic \<and>
           X25519 L newPrivate remotePublicKey = Some sharedSecret \<and>
           DHSelf dr' = \<lparr>PublicKey = newPublic, PrivateKey = newPrivate\<rparr> \<and>
           DHRemote dr' = remotePublicKey \<and>
           (RootKey dr', ChainKey (SendingChain dr')) =
              deriveRootAndChainKeys L (RootKey dr) sharedSecret \<and>
           MessageNumber (SendingChain dr') = 0 \<and>
           ReceivingChain dr' = ReceivingChain dr \<and>
           PreviousCounter dr' = SessionMessageNumber dr \<and>
           SessionMessageNumber dr' = 0"
  using assms
  by (auto simp: PerformDHRatchet_def Let_def split: option.splits prod.splits)

text \<open>
  C3 (as amended). \<^verbatim>\<open>Decrypt\<close> takes no header and starts no DH ratchet: it leaves
  the root key, both DH keys and the sending chain as they were. The ratchet step is
  \<^verbatim>\<open>PerformDHRatchet\<close>, run when the caller invokes it with the peer's public key.
  When it succeeds it has drawn a fresh \<^verbatim>\<open>dh_self\<close> from the generator first, has
  derived the new root key and the new sending-chain key from one HKDF over
  \<^verbatim>\<open>DH(new dh_self.priv, remote)\<close> salted with the old root key, has set the sending
  chain's message number and the session's message number to 0, and has left the
  receiving chain, key and message number, unchanged.
\<close>

theorem PerformDHRatchet_effect:
  "(RootKey (snd (Decrypt L dr0 encrypted n)) = RootKey dr0 \<and>
    DHSelf (snd (Decrypt L dr0 encrypted n)) = DHSelf dr0 \<and>
    DHRemote (snd (Decrypt L dr0 encrypted n)) = DHRemote dr0 \<and>
    SendingChain (snd (Decrypt L dr0 encrypted n)) = SendingChain dr0) \<and>
   (PerformDHRatchet L dr e remotePublicKey = (None, dr', e') \<longrightarrow>
      (\<exists>newPrivate newPublic sharedSecret.
           rand_Read 32 e = Some (newPrivate, e') \<and>
           X25519 L newPrivate Basepoint = Some newPublic \<and>
           X25519 L newPrivate remotePublicKey = Some sharedSecret \<and>
           DHSelf dr' = \<lparr>PublicKey = newPublic, PrivateKey = newPrivate\<rparr> \<and>
           DHRemote dr' = remotePublicKey \<and>
           (RootKey dr', ChainKey (SendingChain dr')) =
              deriveRootAndChainKeys L (RootKey dr) sharedSecret \<and>
           MessageNumber (SendingChain dr') = 0 \<and>
           ReceivingChain dr' = ReceivingChain dr \<and>
           PreviousCounter dr' = SessionMessageNumber dr \<and>
           SessionMessageNumber dr' = 0))"
proof -
  have ratchet: "PerformDHRatchet L dr e remotePublicKey = (None, dr', e') \<longrightarrow>
      (\<exists>newPrivate newPublic sharedSecret.
           rand_Read 32 e = Some (newPrivate, e') \<and>
           X25519 L newPrivate Basepoint = Some newPublic \<and>
           X25519 L newPrivate remotePublicKey = Some sharedSecret \<and>
           DHSelf dr' = \<lparr>PublicKey = newPublic, PrivateKey = newPrivate\<rparr> \<and>
           DHRemote dr' = remotePublicKey \<and>
           (RootKey dr', ChainKey (SendingChain dr')) =
              deriveRootAndChainKeys L (RootKey dr) sharedSecret \<and>
           MessageNumber (SendingChain dr') = 0 \<and>
           ReceivingChain dr' = ReceivingChain dr \<and>
           PreviousCounter dr' = SessionMessageNumber dr \<and>
           SessionMessageNumber dr' = 0)"
    by (rule impI) (rule PerformDHRatchet_None)
  show ?thesis
    using Decrypt_keeps_ratchet_keys [of L dr0 encrypted n] ratchet by (rule conjI)
qed

text \<open>
  Bob's session ratchets against a new remote key: the sending chain restarts at 0, the
  receiving chain is what it was.
\<close>

theorem PerformDHRatchet_effect_witness:
  "fst (PerformDHRatchet toy_lib bob_session (replicate 32 6) (replicate 32 8)) = None \<and>
   DHRemote (fst (snd (PerformDHRatchet toy_lib bob_session (replicate 32 6) (replicate 32 8))))
     = replicate 32 8 \<and>
   MessageNumber (SendingChain
     (fst (snd (PerformDHRatchet toy_lib bob_session (replicate 32 6) (replicate 32 8))))) = 0 \<and>
   ReceivingChain (fst (snd (PerformDHRatchet toy_lib bob_session (replicate 32 6) (replicate 32 8))))
     = ReceivingChain bob_session \<and>
   PreviousCounter (fst (snd (PerformDHRatchet toy_lib bob_session (replicate 32 6) (replicate 32 8))))
     = SessionMessageNumber bob_session \<and>
   SessionMessageNumber
     (fst (snd (PerformDHRatchet toy_lib bob_session (replicate 32 6) (replicate 32 8)))) = 0"
proof -
  let ?run = "PerformDHRatchet toy_lib bob_session (replicate 32 6) (replicate 32 8)"
  have ok: "fst ?run = None"
    by code_simp
  then have h: "?run = (None, fst (snd ?run), snd (snd ?run))"
    by (simp add: prod_eq_iff)
  from PerformDHRatchet_effect [where L = toy_lib and dr = bob_session
      and e = "replicate 32 6" and remotePublicKey = "replicate 32 8"
      and dr' = "fst (snd ?run)" and e' = "snd (snd ?run)"] h ok
  show ?thesis by blast
qed

text \<open>
  The claim as stated fails here: after a ratchet step that succeeded, Bob's receiving
  chain still has its old key and its old message number 5, not a new key and 0.
\<close>

theorem PerformDHRatchet_counterexample:
  "fst (PerformDHRatchet toy_lib bob_session (replicate 32 6) (replicate 32 8)) = None \<and>
   ReceivingChain (fst (snd (PerformDHRatchet toy_lib bob_session (replicate 32 6) (replicate 32 8))))
     = \<lparr>ChainKey = replicate 32 1, MessageNumber = 5\<rparr> \<and>
   MessageNumber (ReceivingChain
     (fst (snd (PerformDHRatchet toy_lib bob_session (replicate 32 6) (replicate 32 8))))) \<noteq> 0"
  by code_simp

subsection \<open>The safety number\<close>

lemma string_less_iff: "string_less a b = (a < b)"
  by (induction a b rule: string_less.induct) auto

lemma byte_mod_10: "unat ((b::byte) mod 10) < 10"
  by (simp add: unat_mod)

lemma Sprintf_d_digit: "n < 10 \<Longrightarrow> Sprintf_d n = [char_of (48 + n)]"
  by simp

lemma upt_5: "[0..<5] = [0, 1, 2, 3, 4]"
  by code_simp

lemma upt_12: "[0..<12] = [0, 1, 2, 3, 4, 5, 6, 7, 8, 9, 10, 11]"
  by code_simp

lemma safetyNumber_group_eq:
  "safetyNumber_group hash i s = s @ map (digit_of_hash hash) [i * 5 ..< i * 5 + 5]"
proof -
  have "[i * 5 ..< i * 5 + 5] = [i * 5, i * 5 + 1, i * 5 + 2, i * 5 + 3, i * 5 + 4]"
    by (simp add: upt_rec)
  then show ?thesis
    by (simp add: safetyNumber_group_def upt_5 Let_def digit_of_hash_def
        Sprintf_d_digit [OF byte_mod_10] del: Sprintf_d.simps)
qed

lemma decimal_chars: "\<forall>n \<in> set [0..<10]. is_decimal_digit (char_of (48 + n))"
  by code_simp

lemma is_decimal_digit_of_hash: "is_decimal_digit (digit_of_hash hash k)"
  using decimal_chars byte_mod_10 [of "hash ! (k mod 32)"]
  by (simp add: digit_of_hash_def)

lemma safetyNumber_of_hash_groups:
  "safetyNumber_of_hash hash = join_groups (hash_groups hash)"
  by (simp add: safetyNumber_of_hash_def hash_groups_def upt_12 safetyNumber_group_eq
      del: upt_Suc)

lemma hash_groups_format:
  "length (hash_groups hash) = 12 \<and>
   list_all (\<lambda>g. length g = 5 \<and> list_all is_decimal_digit g) (hash_groups hash)"
  by (simp add: hash_groups_def list_all_iff is_decimal_digit_of_hash)

lemma space_no_digit: "\<not> is_decimal_digit CHR '' ''"
  by code_simp

lemma filter_join_groups:
  "list_all (list_all P) gs \<Longrightarrow> \<not> P CHR '' '' \<Longrightarrow> filter P (join_groups gs) = concat gs"
proof (induction gs rule: join_groups.induct)
  case 1
  then show ?case by simp
next
  case (2 g)
  then show ?case by (simp add: list_all_iff)
next
  case (3 g v va)
  have "filter P g = g"
    using "3.prems"(1) by (simp add: list_all_iff)
  then show ?case
    using 3 by simp
qed

lemma length_concat_hash_groups: "length (concat (hash_groups hash)) = 60"
  by (simp add: hash_groups_def length_concat comp_def sum_list_triv del: upt_Suc)

lemma safetyNumber_of_hash_digits:
  "length (filter is_decimal_digit (safetyNumber_of_hash hash)) = 60"
proof -
  have "list_all (list_all is_decimal_digit) (hash_groups hash)"
    using hash_groups_format [of hash] by (simp add: list_all_iff)
  then have "filter is_decimal_digit (join_groups (hash_groups hash)) = concat (hash_groups hash)"
    using space_no_digit by (rule filter_join_groups)
  then show ?thesis
    by (simp only: safetyNumber_of_hash_groups length_concat_hash_groups)
qed

lemma grow_double_ok: "grow_ok grow_double"
  by (simp add: grow_ok_def grow_double_def)

lemma overwrite_Nil: "overwrite a i [] = a"
  by (simp add: overwrite_def)

lemma length_overwrite: "i + length xs \<le> length a \<Longrightarrow> length (overwrite a i xs) = length a"
  by (simp add: overwrite_def)

lemma length_slice_bytes: "slice_ok mem s \<Longrightarrow> length (slice_bytes mem s) = Len s"
  by (auto simp: slice_ok_def slice_bytes_def)

lemma take_drop_overwrite:
  assumes "off + n \<le> length a"
  shows "take (n + length xs) (drop off (overwrite a (off + n) xs)) = take n (drop off a) @ xs"
  using assms by (simp add: overwrite_def drop_take)

lemma append_slice_result:
  assumes "slice_ok mem s" and "grow_ok grow" and "append_slice grow mem s xs = (mem', s')"
  shows "slice_bytes mem' s' = slice_bytes mem s @ xs \<and> slice_ok mem' s' \<and>
         length mem \<le> length mem'"
proof (cases "Len s + length xs \<le> Cap s")
  case True
  then have m: "mem' = mem[Array s := overwrite (mem ! Array s) (Offset s + Len s) xs]"
    and s: "s' = s\<lparr>Len := Len s + length xs\<rparr>"
    using assms(3) by (simp_all add: append_slice_def)
  have fits: "Offset s + Len s + length xs \<le> length (mem ! Array s)"
    using True assms(1) by (simp add: slice_ok_def)
  have a: "Array s < length mem"
    using assms(1) by (simp add: slice_ok_def)
  have "slice_bytes mem' s' = slice_bytes mem s @ xs"
    using a fits take_drop_overwrite [of "Offset s" "Len s" "mem ! Array s" xs]
    by (simp add: m s slice_bytes_def)
  moreover have "slice_ok mem' s'"
    using True assms(1) a fits by (simp add: m s slice_ok_def length_overwrite)
  ultimately show ?thesis by (simp add: m)
next
  case False
  let ?n = "Len s + length xs"
  have m: "mem' = mem @ [slice_bytes mem s @ xs @ replicate (grow (Cap s) ?n - ?n) 0]"
    and s: "s' = \<lparr>Array = length mem, Offset = 0, Len = ?n, Cap = grow (Cap s) ?n\<rparr>"
    using False assms(3) by (simp_all add: append_slice_def Let_def)
  have g: "?n \<le> grow (Cap s) ?n"
    using assms(2) by (simp add: grow_ok_def)
  have l: "length (slice_bytes mem s) = Len s"
    using assms(1) by (rule length_slice_bytes)
  show ?thesis
    using g l by (simp add: m s slice_bytes_def slice_ok_def)
qed

lemma append_slice_no_spare:
  assumes "slice_ok mem s" and "Cap s = Len s" and "append_slice grow mem s xs = (mem', s')"
  shows "(mem' = mem \<or> (\<exists>a. mem' = mem @ [a])) \<and> (xs = [] \<longrightarrow> s' = s)"
proof (cases "xs = []")
  case True
  then show ?thesis
    using assms by (simp add: append_slice_def overwrite_Nil)
next
  case False
  then show ?thesis
    using assms by (auto simp: append_slice_def Let_def)
qed

lemma slice_frame:
  assumes "mem' = mem \<or> (\<exists>a. mem' = mem @ [a])" and "slice_ok mem t"
  shows "slice_bytes mem' t = slice_bytes mem t \<and> slice_ok mem' t"
  using assms by (auto simp: slice_bytes_def slice_ok_def nth_append)

lemma GetSafetyNumber_combined_no_spare:
  assumes "grow_ok grow" and "keys_ok mem x" and "keys_ok mem y"
    and "no_spare_capacity x" and "no_spare_capacity y"
  shows "slice_bytes (fst (GetSafetyNumber_combined grow mem x y))
           (snd (GetSafetyNumber_combined grow mem x y))
         = (if string_less (sig_dh_pub mem x) (sig_dh_pub mem y)
            then sig_dh_pub mem x @ sig_dh_pub mem y
            else sig_dh_pub mem y @ sig_dh_pub mem x)"
proof -
  let ?sx = "PublicKeySlice (SigningKey x)" and ?ex = "PublicKeySlice (ExchangeKey x)"
  let ?sy = "PublicKeySlice (SigningKey y)" and ?ey = "PublicKeySlice (ExchangeKey y)"
  have ok: "slice_ok mem ?sx" "slice_ok mem ?ex" "slice_ok mem ?sy" "slice_ok mem ?ey"
    using assms(2,3) by (simp_all add: keys_ok_def)
  have ns: "Cap ?sx = Len ?sx" "Cap ?sy = Len ?sy"
    using assms(4,5) by (simp_all add: no_spare_capacity_def)
  obtain mem1 lc where a1: "append_slice grow mem ?sx (slice_bytes mem ?ex) = (mem1, lc)"
    by (cases "append_slice grow mem ?sx (slice_bytes mem ?ex)")
  have r1: "slice_bytes mem1 lc = sig_dh_pub mem x" "slice_ok mem1 lc"
    using append_slice_result [OF ok(1) assms(1) a1] by simp_all
  have e1: "mem1 = mem \<or> (\<exists>a. mem1 = mem @ [a])"
    using append_slice_no_spare [OF ok(1) ns(1) a1] by simp
  have f1: "slice_bytes mem1 ?sy = slice_bytes mem ?sy" "slice_ok mem1 ?sy"
       "slice_bytes mem1 ?ey = slice_bytes mem ?ey"
    using slice_frame [OF e1 ok(3)] slice_frame [OF e1 ok(4)] by simp_all
  obtain mem2 rc where a2: "append_slice grow mem1 ?sy (slice_bytes mem1 ?ey) = (mem2, rc)"
    by (cases "append_slice grow mem1 ?sy (slice_bytes mem1 ?ey)")
  have r2: "slice_bytes mem2 rc = sig_dh_pub mem y" "slice_ok mem2 rc"
    using append_slice_result [OF f1(2) assms(1) a2] by (simp_all add: f1)
  have e2: "mem2 = mem1 \<or> (\<exists>a. mem2 = mem1 @ [a])"
    using append_slice_no_spare [OF f1(2) ns(2) a2] by simp
  have f2: "slice_bytes mem2 lc = sig_dh_pub mem x" "slice_ok mem2 lc"
    using slice_frame [OF e2 r1(2)] r1(1) by simp_all
  have unfold: "GetSafetyNumber_combined grow mem x y =
      (if string_less (sig_dh_pub mem x) (sig_dh_pub mem y)
       then append_slice grow mem2 lc (sig_dh_pub mem y)
       else append_slice grow mem2 rc (sig_dh_pub mem x))"
    by (simp add: GetSafetyNumber_combined_def a1 a2 f2 r2)
  show ?thesis
  proof (cases "string_less (sig_dh_pub mem x) (sig_dh_pub mem y)")
    case True
    obtain mem3 c where a3: "append_slice grow mem2 lc (sig_dh_pub mem y) = (mem3, c)"
      by (cases "append_slice grow mem2 lc (sig_dh_pub mem y)")
    show ?thesis
      using append_slice_result [OF f2(2) assms(1) a3] True
      by (simp add: unfold a3 f2)
  next
    case False
    obtain mem3 c where a3: "append_slice grow mem2 rc (sig_dh_pub mem x) = (mem3, c)"
      by (cases "append_slice grow mem2 rc (sig_dh_pub mem x)")
    show ?thesis
      using append_slice_result [OF r2(2) assms(1) a3] False
      by (simp add: unfold a3 r2)
  qed
qed

lemma ordered_min_max:
  "(if string_less a b then a @ b else b @ a) = min a b @ max a b"
  by (auto simp: string_less_iff min_def max_def)

text \<open>
  When neither signing key has spare capacity, no call of \<^verbatim>\<open>append\<close> writes into an
  array of the caller. Then the bytes hashed are \<open>min(A, B) \<parallel> max(A, B)\<close> for
  \<open>A\<close>, \<open>B\<close> each party's \<open>sig_pub \<parallel> dh_pub\<close>, in the lexicographic order; the
  string is the twelve groups of five digits, each digit a byte of the SHA-256 digest
  modulo 10; it has 60 decimal digits; and it is the same from either side.
\<close>

lemma GetSafetyNumber_without_spare_capacity:
  assumes "grow_ok grow" and "keys_ok mem x" and "keys_ok mem y"
    and "no_spare_capacity x" and "no_spare_capacity y"
  shows "fst (GetSafetyNumber L grow mem x y) =
           join_groups (hash_groups (sha256_Sum L
             (min (sig_dh_pub mem x) (sig_dh_pub mem y) @
              max (sig_dh_pub mem x) (sig_dh_pub mem y)))) \<and>
         fst (GetSafetyNumber L grow mem x y) = fst (GetSafetyNumber L grow mem y x) \<and>
         length (filter is_decimal_digit (fst (GetSafetyNumber L grow mem x y))) = 60"
proof -
  have eq: "fst (GetSafetyNumber L grow mem a b) =
      safetyNumber_of_hash (sha256_Sum L
        (min (sig_dh_pub mem a) (sig_dh_pub mem b) @ max (sig_dh_pub mem a) (sig_dh_pub mem b)))"
    if "keys_ok mem a" "keys_ok mem b" "no_spare_capacity a" "no_spare_capacity b" for a b
    using GetSafetyNumber_combined_no_spare [OF assms(1) that]
    by (simp add: GetSafetyNumber_def Let_def split_beta ordered_min_max)
  have xy: "fst (GetSafetyNumber L grow mem x y) =
      safetyNumber_of_hash (sha256_Sum L
        (min (sig_dh_pub mem x) (sig_dh_pub mem y) @ max (sig_dh_pub mem x) (sig_dh_pub mem y)))"
    using assms by (intro eq)
  have yx: "fst (GetSafetyNumber L grow mem y x) =
      safetyNumber_of_hash (sha256_Sum L
        (min (sig_dh_pub mem y) (sig_dh_pub mem x) @ max (sig_dh_pub mem y) (sig_dh_pub mem x)))"
    using assms by (intro eq)
  have sym: "fst (GetSafetyNumber L grow mem x y) = fst (GetSafetyNumber L grow mem y x)"
    by (simp only: xy yx min.commute max.commute)
  have grp: "fst (GetSafetyNumber L grow mem x y) =
           join_groups (hash_groups (sha256_Sum L
             (min (sig_dh_pub mem x) (sig_dh_pub mem y) @
              max (sig_dh_pub mem x) (sig_dh_pub mem y))))"
    by (simp only: xy safetyNumber_of_hash_groups)
  have cnt: "length (filter is_decimal_digit (fst (GetSafetyNumber L grow mem x y))) = 60"
    by (simp only: xy safetyNumber_of_hash_digits)
  show ?thesis
    using grp sym cnt by (intro conjI)
qed

lemma GetSafetyNumber_split:
  "GetSafetyNumber L grow mem x y =
     (safetyNumber_of_hash (sha256_Sum L
        (slice_bytes (fst (GetSafetyNumber_combined grow mem x y))
                     (snd (GetSafetyNumber_combined grow mem x y)))),
      fst (GetSafetyNumber_combined grow mem x y))"
  by (simp add: GetSafetyNumber_def Let_def split_beta)

text \<open>
  C6. Safety-number symmetry. The claim asks that \<open>safety_number(X, Y)\<close> and
  \<open>safety_number(Y, X)\<close> agree for every pair of identities. The code misses the
  case of a signing key with spare capacity: \<^verbatim>\<open>append\<close> then writes the exchange key
  into the caller's array. For two identities whose signing keys share one array with
  32 spare bytes, the second \<^verbatim>\<open>append\<close> overwrites what the first wrote, both
  combined slices read \<open>sig \<parallel> remote dh_pub\<close>, and that is hashed twice over: the
  two orders of the arguments hash different bytes and print different numbers, and
  the caller's array has been overwritten.
\<close>

theorem GetSafetyNumber_shared_backing:
  "slice_bytes shared_mem (PublicKeySlice (SigningKey x_identity))
     = slice_bytes shared_mem (PublicKeySlice (SigningKey y_identity)) \<and>
   slice_bytes (fst (GetSafetyNumber_combined grow_double shared_mem x_identity y_identity))
       (snd (GetSafetyNumber_combined grow_double shared_mem x_identity y_identity))
     = (replicate 32 17 @ replicate 32 200) @ (replicate 32 17 @ replicate 32 200) \<and>
   slice_bytes (fst (GetSafetyNumber_combined grow_double shared_mem y_identity x_identity))
       (snd (GetSafetyNumber_combined grow_double shared_mem y_identity x_identity))
     = (replicate 32 17 @ replicate 32 33) @ (replicate 32 17 @ replicate 32 33) \<and>
   fst (GetSafetyNumber toy_lib grow_double shared_mem x_identity y_identity)
     = ''23456 78901 23456 78901 23456 78901 23234 56789 01234 56789 01234 56789'' \<and>
   fst (GetSafetyNumber toy_lib grow_double shared_mem y_identity x_identity)
     = ''01234 56789 01234 56789 01234 56789 01012 34567 89012 34567 89012 34567'' \<and>
   fst (GetSafetyNumber toy_lib grow_double shared_mem x_identity y_identity)
     \<noteq> fst (GetSafetyNumber toy_lib grow_double shared_mem y_identity x_identity) \<and>
   snd (GetSafetyNumber toy_lib grow_double shared_mem x_identity y_identity) ! 0
     = replicate 32 17 @ replicate 32 200"
proof -
  let ?xy = "(replicate 32 17 @ replicate 32 200) @ (replicate 32 17 @ replicate 32 200) :: bytes"
  let ?yx = "(replicate 32 17 @ replicate 32 33) @ (replicate 32 17 @ replicate 32 33) :: bytes"
  have same: "slice_bytes shared_mem (PublicKeySlice (SigningKey x_identity))
     = slice_bytes shared_mem (PublicKeySlice (SigningKey y_identity))"
    by code_simp
  have cxy: "slice_bytes (fst (GetSafetyNumber_combined grow_double shared_mem x_identity y_identity))
       (snd (GetSafetyNumber_combined grow_double shared_mem x_identity y_identity)) = ?xy"
    by code_simp
  have cyx: "slice_bytes (fst (GetSafetyNumber_combined grow_double shared_mem y_identity x_identity))
       (snd (GetSafetyNumber_combined grow_double shared_mem y_identity x_identity)) = ?yx"
    by code_simp
  have dxy: "safetyNumber_of_hash (sha256_Sum toy_lib ?xy)
     = ''23456 78901 23456 78901 23456 78901 23234 56789 01234 56789 01234 56789''"
    by code_simp
  have dyx: "safetyNumber_of_hash (sha256_Sum toy_lib ?yx)
     = ''01234 56789 01234 56789 01234 56789 01012 34567 89012 34567 89012 34567''"
    by code_simp
  have gxy: "fst (GetSafetyNumber toy_lib grow_double shared_mem x_identity y_identity)
     = ''23456 78901 23456 78901 23456 78901 23234 56789 01234 56789 01234 56789''"
    by (simp only: GetSafetyNumber_split fst_conv cxy dxy)
  have gyx: "fst (GetSafetyNumber toy_lib grow_double shared_mem y_identity x_identity)
     = ''01234 56789 01234 56789 01234 56789 01012 34567 89012 34567 89012 34567''"
    by (simp only: GetSafetyNumber_split fst_conv cyx dyx)
  have ne: "fst (GetSafetyNumber toy_lib grow_double shared_mem x_identity y_identity)
     \<noteq> fst (GetSafetyNumber toy_lib grow_double shared_mem y_identity x_identity)"
    by (simp only: gxy gyx) simp
  have mem0: "fst (GetSafetyNumber_combined grow_double shared_mem x_identity y_identity) ! 0
     = replicate 32 17 @ replicate 32 200"
    by code_simp
  have m: "snd (GetSafetyNumber toy_lib grow_double shared_mem x_identity y_identity) ! 0
     = replicate 32 17 @ replicate 32 200"
    by (simp only: GetSafetyNumber_split snd_conv mem0)
  show ?thesis
    by (intro conjI) (rule same cxy cyx gxy gyx ne m)+
qed

subsection \<open>The relay server\<close>

lemma handleClientHello_Inr:
  assumes "handleClientHello s c msg messageID now = Inr s'"
  shows "clients s' = clients s \<and> messageQueue s' = messageQueue s \<and>
         MessagesRouted s' = MessagesRouted s \<and>
         UserID (heap s' c) = From msg \<and>
         (\<forall>c'. c' \<noteq> c \<longrightarrow> heap s' c' = heap s c')"
  using assms
  by (auto simp: handleClientHello_def Let_def split: if_splits)

text \<open>
  C7 (as amended). \<^verbatim>\<open>handleClientHello\<close> does not supersede: it sets the user id on
  the calling client's record and nothing else in the registry. A record registered
  earlier under the same user id stays registered and unchanged, so after the hello two
  registered records carry that user id.
\<close>

theorem handleClientHello_no_supersession:
  assumes "handleClientHello s c msg messageID now = Inr s'"
    and "clients s k = Some earlier" and "earlier \<noteq> c"
    and "UserID (heap s earlier) = From msg"
  shows "clients s' = clients s \<and>
         clients s' k = Some earlier \<and>
         heap s' earlier = heap s earlier \<and>
         UserID (heap s' earlier) = From msg \<and>
         UserID (heap s' c) = From msg"
  using handleClientHello_Inr [OF assms(1)] assms(2-4) by simp

text \<open>
  In \<open>relay2\<close> the first connection is registered as \<^verbatim>\<open>alice\<close>. The second
  connection's hello for \<^verbatim>\<open>alice\<close> succeeds and leaves the first registered under
  that user id.
\<close>

theorem handleClientHello_no_supersession_witness:
  "handleClientHello relay2 2 hello_alice ''msg_2'' 103
     = Inr (projr (handleClientHello relay2 2 hello_alice ''msg_2'' 103)) \<and>
   clients relay2 ''client_1'' = Some 1 \<and>
   (1::nat) \<noteq> 2 \<and>
   UserID (heap relay2 1) = From hello_alice \<and>
   clients (projr (handleClientHello relay2 2 hello_alice ''msg_2'' 103)) ''client_1'' = Some 1 \<and>
   UserID (heap (projr (handleClientHello relay2 2 hello_alice ''msg_2'' 103)) 1) = From hello_alice \<and>
   UserID (heap (projr (handleClientHello relay2 2 hello_alice ''msg_2'' 103)) 2) = From hello_alice"
proof -
  have h1: "handleClientHello relay2 2 hello_alice ''msg_2'' 103
     = Inr (projr (handleClientHello relay2 2 hello_alice ''msg_2'' 103))"
    by (simp add: relay2_def readMessages_step_def handleMessage_def handleClientHello_def
        hello_alice_def relay1_def handleWebSocket_def addClient_def NewServer_def
        Send_capacity_def Let_def)
  have h2: "clients relay2 ''client_1'' = Some 1"
    by (simp add: relay2_def readMessages_step_def handleMessage_def handleClientHello_def
        hello_alice_def relay1_def handleWebSocket_def addClient_def NewServer_def
        Send_capacity_def Let_def)
  have h3: "(1::nat) \<noteq> 2" by simp
  have h4: "UserID (heap relay2 1) = From hello_alice"
    by (simp add: relay2_def readMessages_step_def handleMessage_def handleClientHello_def
        hello_alice_def relay1_def handleWebSocket_def addClient_def NewServer_def
        Send_capacity_def Let_def)
  show ?thesis
    using handleClientHello_no_supersession [OF h1 h2 h3 h4] h1 h2 h3 h4 by simp
qed

text \<open>
  The claim as stated fails here, in a state reached from \<^verbatim>\<open>NewServer\<close>: after two
  connections have said hello as \<^verbatim>\<open>alice\<close>, both records are registered, both
  carry the user id \<^verbatim>\<open>alice\<close>, neither channel is closed, and which of the two a
  lookup of \<^verbatim>\<open>alice\<close> returns depends on the order of the iteration.
\<close>

theorem handleClientHello_supersession_counterexample:
  "readMessages_step relay1 1 hello_alice ''msg_1'' 102 = Inr relay2 \<and>
   readMessages_step relay2 2 hello_alice ''msg_2'' 103 = Inr relay3 \<and>
   clients relay3 ''client_1'' = Some 1 \<and>
   clients relay3 ''client_2'' = Some 2 \<and>
   UserID (heap relay3 1) = ''alice'' \<and>
   UserID (heap relay3 2) = ''alice'' \<and>
   SendClosed (heap relay3 1) = False \<and>
   SendClosed (heap relay3 2) = False \<and>
   findClientByUserID relay3 [''client_1'', ''client_2''] ''alice'' = Some 1 \<and>
   findClientByUserID relay3 [''client_2'', ''client_1''] ''alice'' = Some 2"
proof -
  have r2: "readMessages_step relay1 1 hello_alice ''msg_1'' 102 = Inr relay2"
    by (simp add: relay2_def readMessages_step_def handleMessage_def handleClientHello_def
        hello_alice_def relay1_def handleWebSocket_def addClient_def NewServer_def
        Send_capacity_def Let_def)
  have r3: "readMessages_step relay2 2 hello_alice ''msg_2'' 103 = Inr relay3"
    by (simp add: relay3_def relay2_def readMessages_step_def handleMessage_def handleClientHello_def
        hello_alice_def relay1_def handleWebSocket_def addClient_def NewServer_def
        Send_capacity_def Let_def)
  have rest: "clients relay3 ''client_1'' = Some 1 \<and>
   clients relay3 ''client_2'' = Some 2 \<and>
   UserID (heap relay3 1) = ''alice'' \<and>
   UserID (heap relay3 2) = ''alice'' \<and>
   SendClosed (heap relay3 1) = False \<and>
   SendClosed (heap relay3 2) = False \<and>
   findClientByUserID relay3 [''client_1'', ''client_2''] ''alice'' = Some 1 \<and>
   findClientByUserID relay3 [''client_2'', ''client_1''] ''alice'' = Some 2"
    by (simp add: relay3_def relay2_def readMessages_step_def handleMessage_def handleClientHello_def
        hello_alice_def relay1_def handleWebSocket_def addClient_def NewServer_def
        Send_capacity_def Let_def findClientByUserID_def)
  show ?thesis using r2 r3 rest by blast
qed

lemma findClientByUserID_loop_None:
  "(findClientByUserID_loop s visit userID = None) =
     (\<forall>k \<in> set visit. \<forall>client. clients s k = Some client \<longrightarrow> UserID (heap s client) \<noteq> userID)"
  by (induction visit) (auto split: option.splits)

lemma findClientByUserID_loop_stamp:
  "findClientByUserID_loop (stamp_LastSeen s c now) visit userID
     = findClientByUserID_loop s visit userID"
  by (induction visit) (auto simp: stamp_LastSeen_def split: option.splits)

lemma findClientByUserID_loop_queue:
  "findClientByUserID_loop (s\<lparr>messageQueue := q\<rparr>) visit userID
     = findClientByUserID_loop s visit userID"
  by (induction visit) (auto split: option.splits)

lemma no_client_of_find:
  "no_client_of s userID \<Longrightarrow> findClientByUserID s visit userID = None"
  unfolding findClientByUserID_def findClientByUserID_loop_None no_client_of_def by blast

lemma routeMessage_no_client:
  "no_client_of s (RoutedTo r) \<Longrightarrow> routeMessage s visit r = Inr s"
  by (simp add: routeMessage_def no_client_of_find)

lemma stamp_heap_commute:
  "(heap s)(c := (heap s c)\<lparr>LastSeen := now\<rparr>,
            d := (((heap s)(c := (heap s c)\<lparr>LastSeen := now\<rparr>)) d)\<lparr>Send := q\<rparr>)
   = ((heap s)(d := (heap s d)\<lparr>Send := q\<rparr>))
        (c := (((heap s)(d := (heap s d)\<lparr>Send := q\<rparr>)) c)\<lparr>LastSeen := now\<rparr>)"
  by (rule ext) auto

lemma routeMessage_stamp:
  "routeMessage (stamp_LastSeen s c now) visit r =
     (case routeMessage s visit r of
        Inl p \<Rightarrow> Inl p
      | Inr s' \<Rightarrow> Inr (stamp_LastSeen s' c now))"
proof (cases "findClientByUserID s visit (RoutedTo r)")
  case None
  then show ?thesis
    by (simp add: routeMessage_def findClientByUserID_def findClientByUserID_loop_stamp)
next
  case (Some d)
  have f: "findClientByUserID (stamp_LastSeen s c now) visit (RoutedTo r) = Some d"
    using Some by (simp add: findClientByUserID_def findClientByUserID_loop_stamp)
  show ?thesis
    using stamp_heap_commute [where s = s and c = c and now = now and d = d
        and q = "Send (heap s d) @ [Routed r]"]
    by (simp add: routeMessage_def Some f) (auto simp: stamp_LastSeen_def)
qed


lemma routeMessage_queue:
  "routeMessage (s\<lparr>messageQueue := q\<rparr>) visit r =
     (case routeMessage s visit r of
        Inl p \<Rightarrow> Inl p
      | Inr s' \<Rightarrow> Inr (s'\<lparr>messageQueue := q\<rparr>))"
  by (simp add: routeMessage_def findClientByUserID_def findClientByUserID_loop_queue
      split: option.splits)

lemma routeMessage_Inr:
  assumes "routeMessage s visit r = Inr s'"
  shows "messageQueue s' = messageQueue s \<and> clients s' = clients s \<and>
         (\<forall>c. UserID (heap s' c) = UserID (heap s c))"
  using assms by (auto simp: routeMessage_def split: option.splits if_splits)

lemma routeMessage_no_client_of:
  assumes "routeMessage s visit r = Inr s'" and "no_client_of s userID"
  shows "no_client_of s' userID"
  using routeMessage_Inr [OF assms(1)] assms(2) by (simp add: no_client_of_def)

lemma no_client_of_queue: "no_client_of (s\<lparr>messageQueue := q\<rparr>) userID = no_client_of s userID"
  by (simp add: no_client_of_def)

lemma no_client_of_stamp: "no_client_of (stamp_LastSeen s c now) userID = no_client_of s userID"
  by (auto simp: no_client_of_def stamp_LastSeen_def)

lemma stamp_queue:
  "(stamp_LastSeen s c now)\<lparr>messageQueue := q\<rparr> = stamp_LastSeen (s\<lparr>messageQueue := q\<rparr>) c now"
  by (simp add: stamp_LastSeen_def)

lemma messageRouter_step_stamp:
  "messageRouter_step (stamp_LastSeen s c now) visit =
     (case messageRouter_step s visit of
        Inl p \<Rightarrow> Inl p
      | Inr s' \<Rightarrow> Inr (stamp_LastSeen s' c now))"
proof (cases "messageQueue s")
  case Nil
  then show ?thesis by (simp add: messageRouter_step_def stamp_LastSeen_def)
next
  case (Cons r rest)
  then have "messageQueue (stamp_LastSeen s c now) = r # rest"
    by (simp add: stamp_LastSeen_def)
  then show ?thesis
    using Cons by (simp add: messageRouter_step_def stamp_queue routeMessage_stamp)
qed

lemma messageRouter_turns_stamp:
  "messageRouter_turns (stamp_LastSeen s c now) visit n =
     (case messageRouter_turns s visit n of
        Inl p \<Rightarrow> Inl p
      | Inr s' \<Rightarrow> Inr (stamp_LastSeen s' c now))"
proof (induction n arbitrary: s)
  case 0
  show ?case by simp
next
  case (Suc n)
  show ?case
    by (cases "messageRouter_step s visit") (simp_all add: messageRouter_step_stamp Suc.IH)
qed

lemma messageRouter_turns_append:
  assumes "no_client_of s (RoutedTo r)"
  shows "messageRouter_turns (s\<lparr>messageQueue := messageQueue s @ [r]\<rparr>) visit
           (Suc (length (messageQueue s)))
         = messageRouter_turns s visit (length (messageQueue s))"
  using assms
proof (induction "messageQueue s" arbitrary: s)
  case Nil
  have e: "s\<lparr>messageQueue := []\<rparr> = s"
    using Nil.hyps by (cases s) simp
  have "routeMessage s visit r = Inr s"
    using Nil.prems by (rule routeMessage_no_client)
  then show ?case
    using Nil.hyps [symmetric] by (simp add: messageRouter_step_def e)
next
  case (Cons x xs)
  let ?s0 = "s\<lparr>messageQueue := xs\<rparr>"
  have q: "messageQueue s = x # xs"
    using Cons.hyps(2) by simp
  have long: "messageRouter_step (s\<lparr>messageQueue := x # xs @ [r]\<rparr>) visit =
      (case routeMessage ?s0 visit x of
         Inl p \<Rightarrow> Inl p
       | Inr s' \<Rightarrow> Inr (s'\<lparr>messageQueue := xs @ [r]\<rparr>))"
    using routeMessage_queue [where s = ?s0 and q = "xs @ [r]" and visit = visit and r = x]
    by (simp add: messageRouter_step_def)
  have short: "messageRouter_step s visit = routeMessage ?s0 visit x"
    by (simp add: messageRouter_step_def q)
  show ?case
  proof (cases "routeMessage ?s0 visit x")
    case (Inl p)
    then show ?thesis by (simp add: q long short)
  next
    case (Inr s')
    have mq: "messageQueue s' = xs"
      using routeMessage_Inr [OF Inr] by simp
    have nc: "no_client_of s' (RoutedTo r)"
      using routeMessage_no_client_of [OF Inr] Cons.prems by (simp add: no_client_of_queue)
    have "messageRouter_turns (s'\<lparr>messageQueue := messageQueue s' @ [r]\<rparr>) visit
            (Suc (length (messageQueue s')))
          = messageRouter_turns s' visit (length (messageQueue s'))"
      using mq nc by (intro Cons.hyps(1)) simp_all
    then show ?thesis
      by (simp add: q long short Inr mq)
  qed
qed

text \<open>
  C8 (as amended). A chat envelope whose destination user id no registered client
  carries is dropped without a reply. Reading it stamps the sender's \<^verbatim>\<open>LastSeen\<close>
  and queues the envelope for the router (or drops it at once, when it names no
  destination or the queue is full), and puts nothing into any outbound queue. When
  the router has emptied its queue, whatever else was queued, the server is in the
  state it would be in had the envelope never arrived, but for that
  \<^verbatim>\<open>LastSeen\<close> stamp, whatever the order of the lookups.
\<close>

theorem offline_destination_dropped:
  assumes "Type msg = ''chat''"
    and "\<forall>k client. clients s k = Some client \<longrightarrow> UserID (heap s client) \<noteq> To msg"
  shows "\<exists>s1. readMessages_step s sender msg messageID now = Inr s1 \<and>
           (\<forall>c. Send (heap s1 c) = Send (heap s c)) \<and>
           messageRouter_drain s1 visit =
             (case messageRouter_drain s visit of
                Inl p \<Rightarrow> Inl p
              | Inr s' \<Rightarrow> Inr (stamp_LastSeen s' sender now))"
proof -
  let ?t = "stamp_LastSeen s sender now"
  let ?s1 = "handleChatMessage ?t sender msg"
  let ?r = "\<lparr>RoutedFrom = UserID (heap ?t sender), RoutedTo = To msg, Routed = msg\<rparr>"
  have nc: "no_client_of ?t (RoutedTo ?r)"
    using assms(2) by (simp add: no_client_of_stamp) (simp add: no_client_of_def)
  have mq: "messageQueue ?t = messageQueue s"
    by (simp add: stamp_LastSeen_def)
  have read: "readMessages_step s sender msg messageID now = Inr ?s1"
    using assms(1) by (simp add: readMessages_step_def handleMessage_def stamp_LastSeen_def)
  have send: "\<forall>c. Send (heap ?s1 c) = Send (heap s c)"
    by (simp add: handleChatMessage_def Let_def stamp_LastSeen_def)
  have stamped: "messageRouter_drain ?t visit =
      (case messageRouter_drain s visit of
         Inl p \<Rightarrow> Inl p
       | Inr s' \<Rightarrow> Inr (stamp_LastSeen s' sender now))"
    by (simp add: messageRouter_drain_def mq messageRouter_turns_stamp)
  have "messageRouter_drain ?s1 visit = messageRouter_drain ?t visit"
  proof (cases "To msg = [] \<or> \<not> length (messageQueue ?t) < messageQueue_capacity")
    case True
    then have "?s1 = ?t"
      by (auto simp: handleChatMessage_def)
    then show ?thesis by simp
  next
    case False
    then have "?s1 = ?t\<lparr>messageQueue := messageQueue ?t @ [?r]\<rparr>"
      by (simp add: handleChatMessage_def Let_def)
    then show ?thesis
      using messageRouter_turns_append [OF nc, where visit = visit]
      by (simp add: messageRouter_drain_def)
  qed
  then show ?thesis
    using read send stamped by simp
qed

text \<open>
  \<^verbatim>\<open>alice\<close> sends a chat to \<^verbatim>\<open>carol\<close>, who is not connected: the envelope is
  queued, her outbound queue is what it was, and the router leaves the server as it
  was but for the stamp.
\<close>

theorem offline_destination_dropped_witness:
  "Type chat_to_carol = ''chat'' \<and>
   findClientByUserID relay2 [''client_1'', ''client_2''] (To chat_to_carol) = None \<and>
   messageRouter_drain relay2 [''client_1'', ''client_2''] = Inr relay2 \<and>
   readMessages_step relay2 1 chat_to_carol ''msg_8'' 111
     = Inr (projr (readMessages_step relay2 1 chat_to_carol ''msg_8'' 111)) \<and>
   length (messageQueue (projr (readMessages_step relay2 1 chat_to_carol ''msg_8'' 111))) = 1 \<and>
   Send (heap (projr (readMessages_step relay2 1 chat_to_carol ''msg_8'' 111)) 1)
     = Send (heap relay2 1) \<and>
   messageRouter_drain (projr (readMessages_step relay2 1 chat_to_carol ''msg_8'' 111))
       [''client_1'', ''client_2'']
     = Inr (stamp_LastSeen relay2 1 111)"
proof -
  let ?visit = "[''client_1'', ''client_2'']"
  let ?run = "readMessages_step relay2 1 chat_to_carol ''msg_8'' 111"
  have h1: "Type chat_to_carol = ''chat''"
    by (simp add: chat_to_carol_def)
  have h2: "\<forall>k client. clients relay2 k = Some client \<longrightarrow>
              UserID (heap relay2 client) \<noteq> To chat_to_carol"
    by (simp add: relay2_def readMessages_step_def handleMessage_def handleClientHello_def
        hello_alice_def chat_to_carol_def relay1_def handleWebSocket_def addClient_def
        NewServer_def Send_capacity_def Let_def)
  have f: "findClientByUserID relay2 ?visit (To chat_to_carol) = None"
    using h2 by (intro no_client_of_find) (simp add: no_client_of_def)
  have q: "messageQueue relay2 = []"
    by (simp add: relay2_def readMessages_step_def handleMessage_def handleClientHello_def
        hello_alice_def relay1_def handleWebSocket_def addClient_def NewServer_def
        Send_capacity_def Let_def)
  have d: "messageRouter_drain relay2 ?visit = Inr relay2"
    by (simp add: messageRouter_drain_def q)
  have n: "length (messageQueue (projr ?run)) = 1"
    by (simp add: readMessages_step_def handleMessage_def handleChatMessage_def
        chat_to_carol_def q messageQueue_capacity_def Let_def)
  obtain s1 where r: "?run = Inr s1"
      and s: "\<forall>c. Send (heap s1 c) = Send (heap relay2 c)"
      and t: "messageRouter_drain s1 ?visit =
         (case messageRouter_drain relay2 ?visit of
            Inl p \<Rightarrow> Inl p
          | Inr s' \<Rightarrow> Inr (stamp_LastSeen s' 1 111))"
    using offline_destination_dropped [OF h1 h2, where sender = 1 and messageID = "''msg_8''"
        and now = 111 and visit = ?visit]
    by blast
  have p: "projr ?run = s1"
    using r by simp
  show ?thesis
    using h1 f d n r s t by (simp add: p)
qed

text \<open>
  The claim as stated fails here: after \<^verbatim>\<open>alice\<close>'s chat to \<^verbatim>\<open>carol\<close> has been
  read and routed, the only change to the server is the \<^verbatim>\<open>LastSeen\<close> stamp of her
  record; her outbound queue holds the \<^verbatim>\<open>server_hello\<close> it held before and no
  error message.
\<close>

theorem offline_destination_counterexample:
  "clients relay2 ''client_1'' = Some 1 \<and>
   UserID (heap relay2 1) = ''alice'' \<and>
   findClientByUserID relay2 [''client_1'', ''client_2''] ''carol'' = None \<and>
   findClientByUserID relay2 [''client_2'', ''client_1''] ''carol'' = None \<and>
   messageRouter_step (projr (readMessages_step relay2 1 chat_to_carol ''msg_8'' 111))
       [''client_1'', ''client_2'']
     = Inr (relay2\<lparr>heap := (heap relay2)(1 := (heap relay2 1)\<lparr>LastSeen := 111\<rparr>)\<rparr>) \<and>
   map Type (Send (heap relay2 1)) = [''server_hello''] \<and>
   map Type (Send (heap (relay2\<lparr>heap := (heap relay2)(1 := (heap relay2 1)\<lparr>LastSeen := 111\<rparr>)\<rparr>) 1))
     = [''server_hello'']"
  by (simp add: relay2_def readMessages_step_def handleMessage_def handleClientHello_def
        hello_alice_def chat_to_carol_def relay1_def handleWebSocket_def addClient_def NewServer_def
        Send_capacity_def Let_def findClientByUserID_def handleChatMessage_def
        messageQueue_capacity_def messageRouter_step_def routeMessage_def)

subsection \<open>Reconnection\<close>

lemma sint_60_Second: "sint (60 * Second) = 60000000000"
  by (simp add: Second_def)

lemma backoff_delay_cap: "sint (backoff_delay c) \<le> 60000000000"
  by (simp add: backoff_delay_def Let_def word_sless_alt sint_60_Second)

lemma Connect_fails:
  "\<not> ok \<Longrightarrow> \<exists>err. Connect c ok = (Some err, c)"
  by (simp add: Connect_def)

lemma sendConnectionEvent_fields:
  "isConnected (sendConnectionEvent c ev) = isConnected c \<and>
   reconnectAttempts (sendConnectionEvent c ev) = reconnectAttempts c \<and>
   maxReconnectAttempts (sendConnectionEvent c ev) = maxReconnectAttempts c \<and>
   reconnectDelay (sendConnectionEvent c ev) = reconnectDelay c"
  by (simp add: sendConnectionEvent_def)

lemma sendConnectionEvent_events:
  "list_all (\<lambda>e. e = ev \<or> e \<in> set (connectionEvents c))
     (connectionEvents (sendConnectionEvent c ev))"
  by (auto simp: sendConnectionEvent_def list_all_iff)

lemma attemptReconnection_fail_step:
  assumes "reconnectAttempts c < maxReconnectAttempts c"
    and "\<not> done_at_start (env (reconnectAttempts c + 1))"
    and "\<not> dial_ok (env (reconnectAttempts c + 1))"
    and "\<not> done_in_wait (env (reconnectAttempts c + 1))"
  shows "attemptReconnection env c =
     (case attemptReconnection env
             (sendConnectionEvent (c\<lparr>reconnectAttempts := reconnectAttempts c + 1\<rparr>)
                ConnectionEventReconnecting) of
        (res, c4, delays) \<Rightarrow>
          (res, c4,
           backoff_delay (sendConnectionEvent (c\<lparr>reconnectAttempts := reconnectAttempts c + 1\<rparr>)
                            ConnectionEventReconnecting) # delays))"
proof -
  let ?c2 = "sendConnectionEvent (c\<lparr>reconnectAttempts := reconnectAttempts c + 1\<rparr>)
                ConnectionEventReconnecting"
  obtain err where "Connect ?c2 (dial_ok (env (reconnectAttempts c + 1))) = (Some err, ?c2)"
    using Connect_fails [OF assms(3)] by blast
  then show ?thesis
    using assms(1,2,4) by (subst attemptReconnection.simps) (simp add: Let_def)
qed

lemma attemptReconnection_all_fail:
  assumes "\<forall>k. \<not> done_at_start (env k) \<and> \<not> dial_ok (env k) \<and> \<not> done_in_wait (env k)"
  shows "reconnectAttempts c \<le> maxReconnectAttempts c \<Longrightarrow>
     \<exists>c' delays. attemptReconnection env c = (GaveUp, c', delays) \<and>
        reconnectAttempts c' = maxReconnectAttempts c \<and>
        isConnected c' = isConnected c \<and>
        int (length delays) = maxReconnectAttempts c - reconnectAttempts c \<and>
        list_all (\<lambda>d. sint d \<le> 60000000000) delays \<and>
        newly_sent c c'"
proof (induction "nat (maxReconnectAttempts c - reconnectAttempts c)" arbitrary: c)
  case 0
  then have "\<not> reconnectAttempts c < maxReconnectAttempts c" by simp
  then have "attemptReconnection env c = (GaveUp, c, [])"
    by (subst attemptReconnection.simps) simp
  then show ?case
    using 0 by (simp add: newly_sent_def list_all_iff)
next
  case (Suc n)
  let ?c2 = "sendConnectionEvent (c\<lparr>reconnectAttempts := reconnectAttempts c + 1\<rparr>)
                ConnectionEventReconnecting"
  have lt: "reconnectAttempts c < maxReconnectAttempts c"
    using Suc.hyps(2) by simp
  have f2: "reconnectAttempts ?c2 = reconnectAttempts c + 1"
           "maxReconnectAttempts ?c2 = maxReconnectAttempts c"
           "isConnected ?c2 = isConnected c"
    by (simp_all add: sendConnectionEvent_fields)
  have n: "n = nat (maxReconnectAttempts ?c2 - reconnectAttempts ?c2)"
    using Suc.hyps(2) by (simp add: f2)
  have le: "reconnectAttempts ?c2 \<le> maxReconnectAttempts ?c2"
    using lt by (simp add: f2)
  obtain c' delays where rec: "attemptReconnection env ?c2 = (GaveUp, c', delays)"
      and r: "reconnectAttempts c' = maxReconnectAttempts ?c2"
        "isConnected c' = isConnected ?c2"
        "int (length delays) = maxReconnectAttempts ?c2 - reconnectAttempts ?c2"
        "list_all (\<lambda>d. sint d \<le> 60000000000) delays"
        "newly_sent ?c2 c'"
    using Suc.hyps(1) [OF n le] by blast
  have step: "attemptReconnection env c = (GaveUp, c', backoff_delay ?c2 # delays)"
    using attemptReconnection_fail_step [of c env] lt assms rec by simp
  have ev: "newly_sent c c'"
    using r(5) sendConnectionEvent_events [of ConnectionEventReconnecting
        "c\<lparr>reconnectAttempts := reconnectAttempts c + 1\<rparr>"]
    by (auto simp: newly_sent_def list_all_iff)
  show ?case
    using step r ev lt by (simp add: f2 backoff_delay_cap)
qed

text \<open>
  C9 (as amended). The delay before a next attempt is never more than 60 seconds;
  \<^verbatim>\<open>MaxReconnectAttempts\<close> defaults to 10; and when every attempt fails the loop
  stops once \<^verbatim>\<open>reconnectAttempts\<close> has reached \<^verbatim>\<open>maxReconnectAttempts\<close>, having
  waited once after each failed attempt and having sent the host nothing but
  \<^verbatim>\<open>Reconnecting\<close> events: giving up is logged, not signalled.
\<close>

theorem reconnection_policy:
  "sint (backoff_delay c0) \<le> 60000000000 \<and>
   (reconnectDelay c1 = reconnectDelay c2 \<and> reconnectAttempts c1 = reconnectAttempts c2 \<longrightarrow>
      backoff_delay c1 = backoff_delay c2) \<and>
   (MaxReconnectAttempts opts = 0 \<longrightarrow> maxReconnectAttempts (NewClient opts) = 10) \<and>
   ((\<forall>k. \<not> done_at_start (env k) \<and> \<not> dial_ok (env k) \<and> \<not> done_in_wait (env k)) \<and>
    reconnectAttempts c \<le> maxReconnectAttempts c \<longrightarrow>
      (\<exists>c' delays. attemptReconnection env c = (GaveUp, c', delays) \<and>
        reconnectAttempts c' = maxReconnectAttempts c \<and>
        isConnected c' = isConnected c \<and>
        int (length delays) = maxReconnectAttempts c - reconnectAttempts c \<and>
        list_all (\<lambda>d. sint d \<le> 60000000000) delays \<and>
        newly_sent c c'))"
proof -
  have a: "sint (backoff_delay c0) \<le> 60000000000"
    by (rule backoff_delay_cap)
  have d: "reconnectDelay c1 = reconnectDelay c2 \<and> reconnectAttempts c1 = reconnectAttempts c2 \<longrightarrow>
      backoff_delay c1 = backoff_delay c2"
    by (simp add: backoff_delay_def)
  have b: "MaxReconnectAttempts opts = 0 \<longrightarrow> maxReconnectAttempts (NewClient opts) = 10"
    by (simp add: NewClient_def Let_def)
  show ?thesis
    using a d b attemptReconnection_all_fail [of env c] by blast
qed

text \<open>
  The client made from zero options, in an environment where every dial fails: ten
  attempts, ten waits of at most 60 seconds, then the loop gives up.
\<close>

theorem reconnection_policy_witness:
  "maxReconnectAttempts default_client = 10 \<and>
   reconnectAttempts default_client \<le> maxReconnectAttempts default_client \<and>
   fst (attemptReconnection always_failing default_client) = GaveUp \<and>
   reconnectAttempts (fst (snd (attemptReconnection always_failing default_client))) = 10 \<and>
   length (snd (snd (attemptReconnection always_failing default_client))) = 10 \<and>
   list_all (\<lambda>d. sint d \<le> 60000000000)
     (snd (snd (attemptReconnection always_failing default_client)))"
proof -
  note policy = reconnection_policy [where ?c0.0 = default_client and ?c1.0 = default_client
      and ?c2.0 = default_client and opts = "\<lparr>MaxReconnectAttempts = 0, ReconnectDelay = 0\<rparr>"
      and env = always_failing and c = default_client]
  have m: "maxReconnectAttempts default_client = 10"
    using policy by (simp add: default_client_def)
  have le: "reconnectAttempts default_client \<le> maxReconnectAttempts default_client"
    by (simp add: default_client_def NewClient_def Let_def)
  have env: "\<forall>k. \<not> done_at_start (always_failing k) \<and> \<not> dial_ok (always_failing k) \<and>
                 \<not> done_in_wait (always_failing k)"
    by (simp add: always_failing_def)
  have z: "reconnectAttempts default_client = 0"
    by (simp add: default_client_def NewClient_def Let_def)
  obtain c' delays where
    "attemptReconnection always_failing default_client = (GaveUp, c', delays)"
    "reconnectAttempts c' = maxReconnectAttempts default_client"
    "int (length delays) = maxReconnectAttempts default_client - reconnectAttempts default_client"
    "list_all (\<lambda>d. sint d \<le> 60000000000) delays"
    using policy env le by blast
  then show ?thesis
    using m le z by simp
qed

text \<open>
  With the defaults the waits are 5, 10, 15, \<dots>, 50 seconds. The fourth, 20 seconds,
  is outside the range the formula \<open>min(base \<times> 2^k, 60 s) \<times> [0.75, 1.25]\<close> allows,
  whether the fourth attempt counts as \<open>k = 3\<close> or as \<open>k = 4\<close>; and when the loop has
  given up, the events sent to the host are ten \<^verbatim>\<open>Reconnecting\<close> events and nothing
  else.
\<close>

theorem reconnection_policy_counterexample:
  "map sint (snd (snd (attemptReconnection always_failing default_client)))
     = [5000000000, 10000000000, 15000000000, 20000000000, 25000000000,
        30000000000, 35000000000, 40000000000, 45000000000, 50000000000] \<and>
   \<not> in_spec_backoff_range 5000000000 3 20000000000 \<and>
   \<not> in_spec_backoff_range 5000000000 4 20000000000 \<and>
   fst (attemptReconnection always_failing default_client) = GaveUp \<and>
   connectionEvents (fst (snd (attemptReconnection always_failing default_client)))
     = replicate 10 ConnectionEventReconnecting"
  by code_simp

end
